theory Spec2Isabelle
  imports Main
begin

section \<open>Request context and handlers\<close>

text \<open>
  The router (package \<open>router\<close>, file \<open>router.go\<close>) is handed a request context by
  the transport layer.  Only the parts of \<open>fasthttp.RequestCtx\<close> that the router reads
  or writes are kept: the request method, path and query string, the user values that
  carry bound path parameters, and the response status, headers, content type and body.
  \<open>uriQueryString\<close> is \<open>ctx.URI().QueryString()\<close> and \<open>queryArgsString\<close> is
  \<open>ctx.QueryArgs().QueryString()\<close>; the router reads both.
\<close>

record RequestCtx =
  reqMethod :: string
  reqPath :: string
  uriQueryString :: string
  queryArgsString :: string
  userValues :: "string \<rightharpoonup> string"
  statusCode :: nat
  respHeaders :: "string \<rightharpoonup> string"
  respContentType :: string
  respBody :: string

text \<open>
  A Go panic carries a value, the one \<open>recover\<close> reports.  \<open>IndexOutOfRange\<close> is the
  runtime error raised by an index expression such as \<open>path[0]\<close> on an empty string,
  \<open>NilDereference\<close> the one raised by a call through a nil function value, and
  \<open>PanicValue s\<close> is \<open>panic(s)\<close>.  \<open>NilValue\<close> is the nil value: what \<open>recover\<close> reports
  after \<open>panic(nil)\<close> in the Go versions that keep the nil (from Go 1.21 on the runtime
  replaces it by a runtime error, and \<open>NilValue\<close> does not arise).
\<close>

datatype panic = IndexOutOfRange | NilDereference | NilValue | PanicValue string

text \<open>
  A \<open>fasthttp.RequestHandler\<close> mutates the context and either returns or panics; in
  both cases the context as it stands at that moment is part of the result.
\<close>

datatype hresult = Returned RequestCtx | Panicked panic RequestCtx

type_synonym RequestHandler = "RequestCtx \<Rightarrow> hresult"

definition setUserValues :: "RequestCtx \<Rightarrow> (string \<times> string) list \<Rightarrow> RequestCtx" where
  "setUserValues ctx ps =
     ctx\<lparr>userValues := foldl (\<lambda>m kv. m(fst kv \<mapsto> snd kv)) (userValues ctx) ps\<rparr>"

definition setHeader :: "RequestCtx \<Rightarrow> string \<Rightarrow> string \<Rightarrow> RequestCtx" where
  "setHeader ctx k v = ctx\<lparr>respHeaders := (respHeaders ctx)(k \<mapsto> v)\<rparr>"

definition defaultContentType :: string where
  "defaultContentType = ''text/plain; charset=utf-8''"

text \<open>
  \<open>ctx.Redirect(uri, code)\<close> and \<open>ctx.RedirectBytes(uri, code)\<close>: the status code and
  the \<open>Location\<close> header are set (the resolution of \<open>uri\<close> against the request's host
  is not modelled).
\<close>

definition Redirect :: "RequestCtx \<Rightarrow> string \<Rightarrow> nat \<Rightarrow> RequestCtx" where
  "Redirect ctx uri code = (setHeader ctx ''Location'' uri)\<lparr>statusCode := code\<rparr>"

text \<open>\<open>ctx.Error(msg, code)\<close>: the response is reset and replaced by a plain-text one.\<close>

definition ctxError :: "RequestCtx \<Rightarrow> string \<Rightarrow> nat \<Rightarrow> RequestCtx" where
  "ctxError ctx msg code =
     ctx\<lparr>statusCode := code, respHeaders := Map.empty,
         respContentType := defaultContentType, respBody := msg\<rparr>"

section \<open>The trie interface\<close>

text \<open>
  The router calls into the route trie (\<open>node\<close>, with \<open>addRoute\<close>, \<open>getValue\<close> and
  \<open>findCaseInsensitivePath\<close>) and into the path utilities (\<open>cleanPathWithBuffer\<close>,
  \<open>getOptionalPaths\<close>).  The router's functions below take these operations as a
  parameter, so every theorem about the router holds for any trie behind this interface.

  \<^item> \<open>newNode\<close> is \<open>new(node)\<close>.
  \<^item> \<open>addRoute n p h\<close> returns the node after the insertion and the panic value when the
    insertion aborts.
  \<^item> \<open>getValue n p\<close> returns the handler (if any), the parameter bindings it writes into
    the context when one is given, and the trailing-slash flag.
\<close>

record 'n trie_ops =
  newNode :: 'n
  addRoute :: "'n \<Rightarrow> string \<Rightarrow> RequestHandler \<Rightarrow> panic option \<times> 'n"
  getValue :: "'n \<Rightarrow> string \<Rightarrow> RequestHandler option \<times> (string \<times> string) list \<times> bool"
  findCaseInsensitivePath :: "'n \<Rightarrow> string \<Rightarrow> bool \<Rightarrow> string \<times> bool"
  cleanPath :: "string \<Rightarrow> string"
  getOptionalPaths :: "string \<Rightarrow> string list"

section \<open>The router\<close>

text \<open>
  The fields of \<open>Router\<close> other than \<open>parent\<close>.  \<open>trees\<close> and \<open>registeredPaths\<close> are Go
  maps; a missing key of \<open>registeredPaths\<close> reads as the nil slice.
\<close>

record 'n RouterFields =
  beginPath :: string
  trees :: "string \<rightharpoonup> 'n"
  registeredPaths :: "string \<rightharpoonup> string list"
  RedirectTrailingSlash :: bool
  RedirectFixedPath :: bool
  HandleMethodNotAllowed :: bool
  HandleOPTIONS :: bool
  NotFound :: "RequestHandler option"
  MethodNotAllowed :: "RequestHandler option"
  PanicHandler :: "(RequestCtx \<Rightarrow> panic \<Rightarrow> hresult) option"

text \<open>
  \<open>parent *Router\<close>: a grouped router points to the router it was created from.  A router
  value carries its chain of ancestors, and an operation that writes through the
  \<open>parent\<close> pointer returns the chain with the ancestors as they are afterwards.
\<close>

datatype 'n Router = Router (fields: "'n RouterFields") (parent: "'n Router option")

definition New :: "'n Router" where
  "New = Router \<lparr>beginPath = ''/'', trees = Map.empty, registeredPaths = Map.empty,
                 RedirectTrailingSlash = True, RedirectFixedPath = True,
                 HandleMethodNotAllowed = True, HandleOPTIONS = True,
                 NotFound = None, MethodNotAllowed = None, PanicHandler = None\<rparr> None"

definition Group :: "'n Router \<Rightarrow> string \<Rightarrow> 'n Router" where
  "Group r path = Router ((fields New)\<lparr>beginPath := path\<rparr>) (Some r)"

definition paths_of :: "'n RouterFields \<Rightarrow> string \<Rightarrow> string list" where
  "paths_of r m = (case registeredPaths r m of None \<Rightarrow> [] | Some ps \<Rightarrow> ps)"

text \<open>The outcome of a registration: the router afterwards, and the panic if it aborted.\<close>

datatype 'n registration = Ok "'n Router" | Panic panic "'n Router"

fun state_of :: "'n registration \<Rightarrow> 'n Router" where
  "state_of (Ok r) = r"
| "state_of (Panic e r) = r"

fun is_Ok :: "'n registration \<Rightarrow> bool" where
  "is_Ok (Ok r) = True"
| "is_Ok (Panic e r) = False"

definition mustBeginMsg :: "string \<Rightarrow> string" where
  "mustBeginMsg path =
     ''path must begin with '' @ [CHR 0x27] @ ''/'' @ [CHR 0x27] @ '' in path '' @
     [CHR 0x27] @ path @ [CHR 0x27]"

text \<open>The loop \<open>for _, p := range optionalPaths { root.addRoute(p, handle) }\<close>.\<close>

fun addRoutes ::
  "'n trie_ops \<Rightarrow> 'n \<Rightarrow> string list \<Rightarrow> RequestHandler \<Rightarrow> panic option \<times> 'n" where
  "addRoutes ops root [] handle = (None, root)"
| "addRoutes ops root (p # ps) handle =
     (case addRoute ops root p handle of
        (Some e, root') \<Rightarrow> (Some e, root')
      | (None, root') \<Rightarrow> addRoutes ops root' ps handle)"

fun Handle ::
  "'n trie_ops \<Rightarrow> 'n Router \<Rightarrow> string \<Rightarrow> string \<Rightarrow> RequestHandler \<Rightarrow> 'n registration" where
  "Handle ops (Router r par) method path handle =
     (case path of
        [] \<Rightarrow> Panic IndexOutOfRange (Router r par)
      | c # _ \<Rightarrow>
          if c \<noteq> CHR ''/'' then Panic (PanicValue (mustBeginMsg path)) (Router r par)
          else
            let path' = (if beginPath r \<noteq> ''/'' then beginPath r @ path else path);
                r1 = r\<lparr>registeredPaths :=
                          (registeredPaths r)(method \<mapsto> paths_of r method @ [path'])\<rparr>
            in (case par of
                 Some p \<Rightarrow>
                   (case Handle ops p method path' handle of
                      Ok p' \<Rightarrow> Ok (Router r1 (Some p'))
                    | Panic e p' \<Rightarrow> Panic e (Router r1 (Some p')))
               | None \<Rightarrow>
                   (let root = (case trees r1 method of None \<Rightarrow> newNode ops | Some n \<Rightarrow> n);
                       optionalPaths = getOptionalPaths ops path';
                       added = addRoutes ops root
                                 (if length optionalPaths = 0 then [path'] else optionalPaths)
                                 handle;
                       r2 = r1\<lparr>trees := (trees r1)(method \<mapsto> snd added)\<rparr>
                   in (case fst added of
                         None \<Rightarrow> Ok (Router r2 None)
                       | Some e \<Rightarrow> Panic e (Router r2 None)))))"

section \<open>Dispatch\<close>

text \<open>
  \<open>allowed\<close> ranges over the Go map \<open>r.trees\<close>, whose iteration order is unspecified.
  The order is an input of the model: \<open>ks\<close> is the sequence of keys the \<open>range\<close>
  statement yields.  \<open>addAllowed\<close> is the block that extends \<open>allow\<close> by one method.
\<close>

definition addAllowed :: "string \<Rightarrow> string \<Rightarrow> string" where
  "addAllowed allow m = (if length allow = 0 then m else allow @ '', '' @ m)"

fun allowedServerWide :: "string list \<Rightarrow> string \<Rightarrow> string" where
  "allowedServerWide [] allow = allow"
| "allowedServerWide (m # ms) allow =
     (if m = ''OPTIONS'' then allowedServerWide ms allow
      else allowedServerWide ms (addAllowed allow m))"

fun allowedForPath ::
  "'n trie_ops \<Rightarrow> (string \<rightharpoonup> 'n) \<Rightarrow> string \<Rightarrow> string \<Rightarrow> string list \<Rightarrow> string \<Rightarrow> string" where
  "allowedForPath ops ts path reqM [] allow = allow"
| "allowedForPath ops ts path reqM (m # ms) allow =
     (if m = reqM \<or> m = ''OPTIONS'' then allowedForPath ops ts path reqM ms allow
      else (case ts m of
              None \<Rightarrow> allowedForPath ops ts path reqM ms allow
            | Some n \<Rightarrow>
                (if fst (getValue ops n path) \<noteq> None
                 then allowedForPath ops ts path reqM ms (addAllowed allow m)
                 else allowedForPath ops ts path reqM ms allow)))"

definition allowed ::
  "'n trie_ops \<Rightarrow> 'n RouterFields \<Rightarrow> string list \<Rightarrow> string \<Rightarrow> string \<Rightarrow> string" where
  "allowed ops r ks path reqM =
     (let allow = (if path = ''*'' \<or> path = ''/*'' then allowedServerWide ks []
                   else allowedForPath ops (trees r) path reqM ks [])
      in if length allow > 0 then allow @ '', OPTIONS'' else allow)"

text \<open>
  The six ways \<open>Router.Handler\<close> ends.  The tag names the return point that was taken;
  the response itself is in the context.
\<close>

datatype outcome =
  OutHandled | OutRedirectSlash | OutRedirectFixed | OutOptions | OutMethodNotAllowed
  | OutNotFound

text \<open>The final block of \<open>Handler\<close> (``Handle 404'').\<close>

definition Handler_notFound :: "'n RouterFields \<Rightarrow> RequestCtx \<Rightarrow> outcome \<times> hresult" where
  "Handler_notFound r ctx =
     (OutNotFound,
      case NotFound r of
        Some h \<Rightarrow> h ctx
      | None \<Rightarrow> Returned (ctxError ctx ''Not Found'' 404))"

text \<open>The part of \<open>Handler\<close> after the lookup in the request method's tree.\<close>

definition Handler_fallback ::
  "'n trie_ops \<Rightarrow> 'n RouterFields \<Rightarrow> string list \<Rightarrow> RequestCtx \<Rightarrow> outcome \<times> hresult" where
  "Handler_fallback ops r ks ctx =
     (let path = reqPath ctx; method = reqMethod ctx; allow = allowed ops r ks path method in
      if method = ''OPTIONS'' then
        (if HandleOPTIONS r \<and> length allow > 0
         then (OutOptions, Returned (setHeader ctx ''Allow'' allow))
         else Handler_notFound r ctx)
      else
        (if HandleMethodNotAllowed r \<and> length allow > 0
         then (OutMethodNotAllowed,
               let ctx' = setHeader ctx ''Allow'' allow in
               case MethodNotAllowed r of
                 Some h \<Rightarrow> h ctx'
               | None \<Rightarrow>
                   Returned (ctx'\<lparr>statusCode := 405, respContentType := defaultContentType,
                                  respBody := ''Method Not Allowed''\<rparr>))
         else Handler_notFound r ctx))"

text \<open>The body of \<open>Handler\<close>, without the deferred \<open>recv\<close>.\<close>

definition Handler_body ::
  "'n trie_ops \<Rightarrow> 'n RouterFields \<Rightarrow> string list \<Rightarrow> RequestCtx \<Rightarrow> outcome \<times> hresult" where
  "Handler_body ops r ks ctx =
     (let path = reqPath ctx; method = reqMethod ctx in
      case trees r method of
        None \<Rightarrow> Handler_fallback ops r ks ctx
      | Some root \<Rightarrow>
          (case getValue ops root path of
             (f, ps, tsr) \<Rightarrow>
               (let ctx1 = setUserValues ctx ps in
                case f of
                  Some h \<Rightarrow> (OutHandled, h ctx1)
                | None \<Rightarrow>
                    (if method \<noteq> ''CONNECT'' \<and> path \<noteq> ''/'' then
                       (let code = (if method \<noteq> ''GET'' then 307 else 301) in
                        if tsr \<and> RedirectTrailingSlash r then
                          (let uri = (if length path > 1 \<and> last path = CHR ''/''
                                      then butlast path else path @ ''/'');
                               uri' = (if length (uriQueryString ctx1) > 0
                                       then uri @ ''?'' @ queryArgsString ctx1 else uri)
                           in (OutRedirectSlash, Returned (Redirect ctx1 uri' code)))
                        else if RedirectFixedPath r then
                          (case findCaseInsensitivePath ops root (cleanPath ops path)
                                  (RedirectTrailingSlash r) of
                             (fixedPath, found) \<Rightarrow>
                               (if found then
                                  (OutRedirectFixed,
                                   Returned (Redirect ctx1
                                     (if length (uriQueryString ctx1) > 0
                                      then fixedPath @ ''?'' @ uriQueryString ctx1
                                      else fixedPath) code))
                                else Handler_fallback ops r ks ctx1))
                        else Handler_fallback ops r ks ctx1)
                     else Handler_fallback ops r ks ctx1))))"

text \<open>
  \<open>Handler\<close>: when a \<open>PanicHandler\<close> is set, \<open>recv\<close> is deferred; it recovers a panic of
  the body and, when the recovered value is not nil, calls the \<open>PanicHandler\<close> with the
  context and the recovered value.  The result of that call is the result of \<open>Handler\<close>:
  a panic of the \<open>PanicHandler\<close> is not recovered.
\<close>

definition recv :: "'n RouterFields \<Rightarrow> hresult \<Rightarrow> hresult" where
  "recv r res =
     (case res of
        Returned c \<Rightarrow> Returned c
      | Panicked v c \<Rightarrow>
          (if v \<noteq> NilValue then
             (case PanicHandler r of
                Some ph \<Rightarrow> ph c v
              | None \<Rightarrow> Panicked NilDereference c)
           else Returned c))"

definition Handler ::
  "'n trie_ops \<Rightarrow> 'n Router \<Rightarrow> string list \<Rightarrow> RequestCtx \<Rightarrow> outcome \<times> hresult" where
  "Handler ops g ks ctx =
     (let r = fields g; res = Handler_body ops r ks ctx in
      if PanicHandler r \<noteq> None then (fst res, recv r (snd res)) else res)"

text \<open>
  \<open>Lookup(method, path, ctx)\<close>; \<open>ctx\<close> may be nil.  The result is the pair the source
  returns and the context after the lookup.
\<close>

definition Lookup ::
  "'n trie_ops \<Rightarrow> 'n Router \<Rightarrow> string \<Rightarrow> string \<Rightarrow> RequestCtx option
     \<Rightarrow> (RequestHandler option \<times> bool) \<times> RequestCtx option" where
  "Lookup ops g method path ctx =
     (case trees (fields g) method of
        Some root \<Rightarrow>
          (case getValue ops root path of
             (f, ps, tsr) \<Rightarrow> ((f, tsr), map_option (\<lambda>c. setUserValues c ps) ctx))
      | None \<Rightarrow> ((None, False), ctx))"

definition List_routes :: "'n Router \<Rightarrow> (string \<rightharpoonup> string list)" where
  "List_routes g = registeredPaths (fields g)"

section \<open>A trie for static patterns\<close>

text \<open>
  Modelled from the spec: the route trie (\<open>node\<close>, \<open>addRoute\<close>, \<open>getValue\<close>,
  \<open>findCaseInsensitivePath\<close>) and the path utilities (\<open>cleanPath\<close>, \<open>getOptionalPaths\<close>)
  are not among the source files.  The definitions of this section follow sections 4.1
  and 4.2 of the specification for patterns made of static segments, and serve as the
  concrete trie on which the router's theorems are instantiated.  A node is the list of
  the patterns registered so far, each with its handler; patterns are compared as text.
\<close>

type_synonym static_node = "(string \<times> RequestHandler) list"

text \<open>Modelled from the spec: toggling the single trailing \<open>/\<close> of a path.\<close>

definition toggleSlash :: "string \<Rightarrow> string" where
  "toggleSlash p = (if p \<noteq> [] \<and> last p = CHR ''/'' then butlast p else p @ ''/'')"

text \<open>
  Modelled from the spec: \<open>addRoute\<close> fails when the pattern does not start with \<open>/\<close> or
  when the same pattern is already registered; otherwise the pattern is inserted.
\<close>

definition static_addRoute ::
  "static_node \<Rightarrow> string \<Rightarrow> RequestHandler \<Rightarrow> panic option \<times> static_node" where
  "static_addRoute n pattern h =
     (case pattern of
        [] \<Rightarrow> (Some (PanicValue ''pattern must begin with a slash''), n)
      | c # _ \<Rightarrow>
          if c \<noteq> CHR ''/'' then (Some (PanicValue ''pattern must begin with a slash''), n)
          else if map_of n pattern \<noteq> None then (Some (PanicValue ''duplicate route''), n)
          else (None, n @ [(pattern, h)]))"

text \<open>
  Modelled from the spec: \<open>getValue\<close> returns the handler on an exact match; without one
  it returns no handler and signals whether adding or removing a single trailing \<open>/\<close>
  would match.  Static patterns bind no parameters.
\<close>

definition static_getValue ::
  "static_node \<Rightarrow> string \<Rightarrow> RequestHandler option \<times> (string \<times> string) list \<times> bool" where
  "static_getValue n path =
     (case map_of n path of
        Some h \<Rightarrow> (Some h, [], False)
      | None \<Rightarrow> (None, [], map_of n (toggleSlash path) \<noteq> None))"

text \<open>Modelled from the spec: the lower-case form of an ASCII letter, for case-insensitive matching.\<close>

definition lowerChar :: "char \<Rightarrow> char" where
  "lowerChar c =
     (let k = (of_char c :: nat) in if 65 \<le> k \<and> k \<le> 90 then char_of (k + 32) else c)"

text \<open>
  Modelled from the spec: \<open>findCaseInsensitivePath\<close> returns the registered pattern that
  equals the path up to letter case, else (when allowed) the one that equals the path
  with its trailing \<open>/\<close> toggled, else reports not found.
\<close>

definition static_findCaseInsensitivePath ::
  "static_node \<Rightarrow> string \<Rightarrow> bool \<Rightarrow> string \<times> bool" where
  "static_findCaseInsensitivePath n path fixTrailingSlash =
     (case find (\<lambda>e. map lowerChar (fst e) = map lowerChar path) n of
        Some e \<Rightarrow> (fst e, True)
      | None \<Rightarrow>
          (if fixTrailingSlash then
             (case find (\<lambda>e. map lowerChar (fst e) = map lowerChar (toggleSlash path)) n of
                Some e \<Rightarrow> (fst e, True)
              | None \<Rightarrow> ([], False))
           else ([], False)))"

text \<open>Modelled from the spec: a path split at every \<open>/\<close>, and segments joined again.\<close>

fun splitSlash :: "string \<Rightarrow> string list" where
  "splitSlash [] = [[]]"
| "splitSlash (c # cs) =
     (if c = CHR ''/'' then [] # splitSlash cs
      else (case splitSlash cs of [] \<Rightarrow> [[c]] | s # ss \<Rightarrow> (c # s) # ss))"

definition joinSlash :: "string list \<Rightarrow> string" where
  "joinSlash segs = (if segs = [] then ''/'' else concat (map (\<lambda>s. CHR ''/'' # s) segs))"

text \<open>
  Modelled from the spec: \<open>cleanPath\<close> collapses repeated \<open>/\<close>, resolves \<open>.\<close> and \<open>..\<close>
  lexically and guarantees a leading \<open>/\<close>.  A trailing \<open>/\<close> is kept.
\<close>

definition cleanStep :: "string list \<Rightarrow> string \<Rightarrow> string list" where
  "cleanStep st seg =
     (if seg = [] \<or> seg = ''.'' then st else if seg = ''..'' then butlast st else st @ [seg])"

definition static_cleanPath :: "string \<Rightarrow> string" where
  "static_cleanPath p =
     (let segs = foldl cleanStep [] (splitSlash p) in
      if segs \<noteq> [] \<and> p \<noteq> [] \<and> last p = CHR ''/'' then joinSlash segs @ ''/''
      else joinSlash segs)"

text \<open>
  Modelled from the spec: \<open>getOptionalPaths\<close> (the spec's \<open>expandOptionalSegments\<close>).  The
  spec does not fix how a segment is marked optional; here a segment is optional when
  it ends in \<open>?\<close>.  For a pattern whose last \<open>k\<close> segments are optional the result is the
  \<open>k + 1\<close> concrete patterns that keep the first \<open>j\<close> of them, from \<open>j = k\<close> down to
  \<open>j = 0\<close>; a pattern without optional segments is returned as it is.
\<close>

definition isOptional :: "string \<Rightarrow> bool" where
  "isOptional seg = (seg \<noteq> [] \<and> last seg = CHR ''?'')"

definition static_getOptionalPaths :: "string \<Rightarrow> string list" where
  "static_getOptionalPaths pattern =
     (let segs = tl (splitSlash pattern);
          k = length (takeWhile isOptional (rev segs));
          fixed = take (length segs - k) segs;
          opts = map butlast (drop (length segs - k) segs)
      in if k = 0 then [pattern]
         else map (\<lambda>j. joinSlash (fixed @ take (k - j) opts)) [0..<Suc k])"

text \<open>The static trie and the path utilities behind the interface of the router.\<close>

definition static_ops :: "static_node trie_ops" where
  "static_ops =
     \<lparr>newNode = [], addRoute = static_addRoute, getValue = static_getValue,
      findCaseInsensitivePath = static_findCaseInsensitivePath,
      cleanPath = static_cleanPath, getOptionalPaths = static_getOptionalPaths\<rparr>"

section \<open>Notions used in the statements\<close>

text \<open>
  Abbreviations for parts of \<open>Handle\<close> and \<open>Handler\<close> and for what the statements below
  say about their results.
\<close>

definition startsWithSlash :: "string \<Rightarrow> bool" where
  "startsWithSlash path = (case path of [] \<Rightarrow> False | c # _ \<Rightarrow> c = CHR ''/'')"

text \<open>The context a handler leaves behind, and whether it returned.\<close>

fun resultCtx :: "hresult \<Rightarrow> RequestCtx" where
  "resultCtx (Returned c) = c"
| "resultCtx (Panicked v c) = c"

fun returned :: "hresult \<Rightarrow> bool" where
  "returned (Returned c) = True"
| "returned (Panicked v c) = False"

text \<open>
  The context after \<open>root.getValue(path, ctx)\<close> in \<open>Handler\<close>: the lookup in the request
  method's tree has written the parameter bindings; without a tree nothing is written.
\<close>

definition afterLookup :: "'n trie_ops \<Rightarrow> 'n RouterFields \<Rightarrow> RequestCtx \<Rightarrow> RequestCtx" where
  "afterLookup ops r ctx =
     (case trees r (reqMethod ctx) of
        None \<Rightarrow> ctx
      | Some root \<Rightarrow> setUserValues ctx (fst (snd (getValue ops root (reqPath ctx)))))"

text \<open>
  The conditions under which \<open>Handler\<close> reaches its two redirects: the request method has
  a tree, the lookup in it finds no handler, the request is not exempt (method
  \<open>CONNECT\<close>, path \<open>/\<close>), and either the lookup reports the trailing-slash flag and
  \<open>RedirectTrailingSlash\<close> is set, or that is not so, \<open>RedirectFixedPath\<close> is set and
  \<open>findCaseInsensitivePath\<close> on the cleaned path finds a path.
\<close>

definition slashRedirectApplies :: "'n trie_ops \<Rightarrow> 'n RouterFields \<Rightarrow> RequestCtx \<Rightarrow> bool" where
  "slashRedirectApplies ops r ctx =
     (case trees r (reqMethod ctx) of
        None \<Rightarrow> False
      | Some root \<Rightarrow>
          fst (getValue ops root (reqPath ctx)) = None
          \<and> reqMethod ctx \<noteq> ''CONNECT'' \<and> reqPath ctx \<noteq> ''/''
          \<and> snd (snd (getValue ops root (reqPath ctx))) \<and> RedirectTrailingSlash r)"

definition fixedRedirectApplies :: "'n trie_ops \<Rightarrow> 'n RouterFields \<Rightarrow> RequestCtx \<Rightarrow> bool" where
  "fixedRedirectApplies ops r ctx =
     (case trees r (reqMethod ctx) of
        None \<Rightarrow> False
      | Some root \<Rightarrow>
          fst (getValue ops root (reqPath ctx)) = None
          \<and> reqMethod ctx \<noteq> ''CONNECT'' \<and> reqPath ctx \<noteq> ''/''
          \<and> \<not> (snd (snd (getValue ops root (reqPath ctx))) \<and> RedirectTrailingSlash r)
          \<and> RedirectFixedPath r
          \<and> snd (findCaseInsensitivePath ops root (cleanPath ops (reqPath ctx))
                   (RedirectTrailingSlash r)))"

text \<open>The status code \<open>Handler\<close> computes before either redirect.\<close>

definition redirectCode :: "string \<Rightarrow> nat" where
  "redirectCode m = (if m = ''GET'' then 301 else 307)"

text \<open>
  The comma-joined list of the specification: the elements separated by a comma and a
  space.
\<close>

fun commaJoin :: "string list \<Rightarrow> string" where
  "commaJoin [] = []"
| "commaJoin [m] = m"
| "commaJoin (m # m' # ms) = m @ '', '' @ commaJoin (m' # ms)"

text \<open>The tree of method \<open>m\<close> has a handler for exactly this path.\<close>

definition matches :: "'n trie_ops \<Rightarrow> 'n RouterFields \<Rightarrow> string \<Rightarrow> string \<Rightarrow> bool" where
  "matches ops r path m =
     (case trees r m of None \<Rightarrow> False | Some n \<Rightarrow> fst (getValue ops n path) \<noteq> None)"

text \<open>
  What \<open>Handle\<close> puts in front of the path: \<open>beginPath\<close>, unless it is exactly \<open>/\<close>.
\<close>

definition ownPrefix :: "'n RouterFields \<Rightarrow> string" where
  "ownPrefix r = (if beginPath r \<noteq> ''/'' then beginPath r else [])"

text \<open>The patterns \<open>Handle\<close> inserts: the optional paths, or the path when there are none.\<close>

definition expansions :: "'n trie_ops \<Rightarrow> string \<Rightarrow> string list" where
  "expansions ops path =
     (let optionalPaths = getOptionalPaths ops path
      in if length optionalPaths = 0 then [path] else optionalPaths)"

text \<open>The tree \<open>Handle\<close> inserts into: \<open>r.trees[method]\<close>, or a new node.\<close>

definition treeFor :: "'n trie_ops \<Rightarrow> 'n RouterFields \<Rightarrow> string \<Rightarrow> 'n" where
  "treeFor ops r m = (case trees r m of None \<Rightarrow> newNode ops | Some n \<Rightarrow> n)"

text \<open>
  The ungrouped root of a chain, the grouped routers of the chain (innermost first), and
  the prefixes of the chain put together from the root down.
\<close>

fun root_of :: "'n Router \<Rightarrow> 'n RouterFields" where
  "root_of (Router r None) = r"
| "root_of (Router r (Some p)) = root_of p"

fun groups_of :: "'n Router \<Rightarrow> 'n RouterFields list" where
  "groups_of (Router r None) = []"
| "groups_of (Router r (Some p)) = r # groups_of p"

fun chainPrefix :: "'n Router \<Rightarrow> string" where
  "chainPrefix (Router r None) = ownPrefix r"
| "chainPrefix (Router r (Some p)) = chainPrefix p @ ownPrefix r"

text \<open>
  Every call of \<open>Handle\<close> along the chain passes the guard on \<open>path[0]\<close>: the path does
  at the router it is given to, and the prefixed path does at each ancestor.
\<close>

fun reachesRoot :: "'n Router \<Rightarrow> string \<Rightarrow> bool" where
  "reachesRoot (Router r None) path = startsWithSlash path"
| "reachesRoot (Router r (Some p)) path =
     (startsWithSlash path \<and> reachesRoot p (ownPrefix r @ path))"

text \<open>\<open>r.registeredPaths[method] = append(r.registeredPaths[method], path)\<close>.\<close>

definition recordPath :: "'n RouterFields \<Rightarrow> string \<Rightarrow> string \<Rightarrow> 'n RouterFields" where
  "recordPath r m path =
     r\<lparr>registeredPaths := (registeredPaths r)(m \<mapsto> paths_of r m @ [path])\<rparr>"

text \<open>The root once \<open>Handle\<close> has recorded the path and inserted its expansions.\<close>

definition rootAfter ::
  "'n trie_ops \<Rightarrow> 'n RouterFields \<Rightarrow> string \<Rightarrow> string \<Rightarrow> RequestHandler \<Rightarrow> 'n RouterFields" where
  "rootAfter ops r m path h =
     (recordPath r m path)
       \<lparr>trees := (trees r)(m \<mapsto> snd (addRoutes ops (treeFor ops r m) (expansions ops path) h))\<rparr>"

section \<open>Example values\<close>

text \<open>Concrete handlers, requests and routers on which the theorems are instantiated.\<close>

definition okHandler :: RequestHandler where
  "okHandler c = Returned (c\<lparr>statusCode := 200, respBody := ''ok''\<rparr>)"

definition request :: "string \<Rightarrow> string \<Rightarrow> RequestCtx" where
  "request m p =
     \<lparr>reqMethod = m, reqPath = p, uriQueryString = [], queryArgsString = [],
      userValues = Map.empty, statusCode = 200, respHeaders = Map.empty,
      respContentType = [], respBody = []\<rparr>"

text \<open>\<open>r := New(); r.Handle(m, p, okHandler)\<close> on the static trie.\<close>

definition routerWith :: "string \<Rightarrow> string \<Rightarrow> static_node Router" where
  "routerWith m p = state_of (Handle static_ops New m p okHandler)"

text \<open>The assignment \<open>r.PanicHandler = ph\<close>.\<close>

definition withPanicHandler ::
  "'n Router \<Rightarrow> (RequestCtx \<Rightarrow> panic \<Rightarrow> hresult) \<Rightarrow> 'n Router" where
  "withPanicHandler g ph = Router ((fields g)\<lparr>PanicHandler := Some ph\<rparr>) (parent g)"

text \<open>A handler that panics after it has written to the response, and a failure handler.\<close>

definition boomHandler :: RequestHandler where
  "boomHandler c = Panicked (PanicValue ''boom'') (c\<lparr>respBody := ''partial''\<rparr>)"

definition report500 :: "RequestCtx \<Rightarrow> panic \<Rightarrow> hresult" where
  "report500 c v =
     Returned (c\<lparr>statusCode := 500,
                 respBody := (case v of PanicValue s \<Rightarrow> s | _ \<Rightarrow> ''runtime error'')\<rparr>)"

text \<open>A failure handler that panics itself.\<close>

definition rethrow :: "RequestCtx \<Rightarrow> panic \<Rightarrow> hresult" where
  "rethrow c v = Panicked (PanicValue ''failure handler failed'') c"

text \<open>\<open>r := New(); r.GET("/boom", boomHandler)\<close> on the static trie.\<close>

definition boomRouter :: "static_node Router" where
  "boomRouter = state_of (Handle static_ops New ''GET'' ''/boom'' boomHandler)"

text \<open>\<open>r := New(); r.GET("/x", okHandler); r.PUT("/x", okHandler)\<close> on the static trie.\<close>

definition twoMethods :: "static_node Router" where
  "twoMethods =
     state_of (Handle static_ops (state_of (Handle static_ops New ''GET'' ''/x'' okHandler))
                 ''PUT'' ''/x'' okHandler)"

text \<open>\<open>r := New(); r.Handle("", "/x", okHandler); r.GET("/x", okHandler)\<close> on the static trie.\<close>

definition emptyAndGet :: "static_node Router" where
  "emptyAndGet =
     state_of (Handle static_ops (state_of (Handle static_ops New [] ''/x'' okHandler))
                 ''GET'' ''/x'' okHandler)"

text \<open>\<open>New().Group("/")\<close> and \<open>New().Group("/api").Group("/v1")\<close>.\<close>

definition slashGroup :: "static_node Router" where
  "slashGroup = Group New ''/''"

definition apiV1 :: "static_node Router" where
  "apiV1 = Group (Group New ''/api'') ''/v1''"

section \<open>Registration\<close>

lemma Handle_empty_path:
  "Handle ops g method [] handle = Panic IndexOutOfRange g"
  by (cases g) simp

lemma Handle_bad_first_char:
  "c \<noteq> CHR ''/'' \<Longrightarrow>
   Handle ops g method (c # cs) handle = Panic (PanicValue (mustBeginMsg (c # cs))) g"
  by (cases g) simp

text \<open>
  C8.  A call \<open>Handle(method, path, handler)\<close> whose path does not start with \<open>/\<close> aborts
  with a panic, and the router (its \<open>registeredPaths\<close>, its tries, and those of all its
  ancestors) is exactly as before the call.  The panic is the runtime's index error for
  the empty path and the descriptive message otherwise.
\<close>

theorem Handle_without_leading_slash_aborts:
  assumes "\<not> startsWithSlash path"
  shows "Handle ops g method path handle =
           Panic (if path = [] then IndexOutOfRange else PanicValue (mustBeginMsg path)) g"
proof (cases path)
  case Nil
  then show ?thesis by (simp add: Handle_empty_path)
next
  case (Cons c cs)
  with assms have "c \<noteq> CHR ''/''" by (simp add: startsWithSlash_def)
  with Cons show ?thesis by (simp add: Handle_bad_first_char)
qed

theorem Handle_without_leading_slash_aborts_witness:
  "Handle static_ops (Group New ''/api'') ''GET'' ''users'' okHandler =
     Panic (PanicValue (mustBeginMsg ''users'')) (Group New ''/api'')"
  using Handle_without_leading_slash_aborts
          [of "''users''" static_ops "Group New ''/api''" "''GET''" okHandler]
  by (simp add: startsWithSlash_def)

text \<open>
  C10.  The guard of \<open>Handle\<close> reads \<open>path[0]\<close>: with the empty path the call aborts with
  the index error of the runtime, not with the descriptive message, and nothing is
  registered.
\<close>

theorem Handle_empty_path_index_panic:
  "Handle ops g method [] handle = Panic IndexOutOfRange g
   \<and> Handle ops g method [] handle \<noteq> Panic (PanicValue (mustBeginMsg [])) g
   \<and> state_of (Handle ops g method [] handle) = g"
  by (simp add: Handle_empty_path)

theorem Handle_empty_path_index_panic_witness:
  "Handle static_ops New ''GET'' [] okHandler = Panic IndexOutOfRange New
   \<and> state_of (Handle static_ops New ''GET'' [] okHandler) = (New :: static_node Router)"
  using Handle_empty_path_index_panic [of static_ops New "''GET''" okHandler]
  by simp

section \<open>Dispatch: the cases of \<open>Handler\<close>\<close>

lemma setUserValues_req [simp]:
  "reqMethod (setUserValues ctx ps) = reqMethod ctx"
  "reqPath (setUserValues ctx ps) = reqPath ctx"
  "uriQueryString (setUserValues ctx ps) = uriQueryString ctx"
  by (simp_all add: setUserValues_def)

lemma Handler_notFound_outcome: "fst (Handler_notFound r ctx) = OutNotFound"
  by (simp add: Handler_notFound_def)

lemma Handler_fallback_outcome:
  "fst (Handler_fallback ops r ks ctx) = OutOptions
   \<or> fst (Handler_fallback ops r ks ctx) = OutMethodNotAllowed
   \<or> fst (Handler_fallback ops r ks ctx) = OutNotFound"
  by (simp add: Handler_fallback_def Let_def Handler_notFound_def)

lemma Handler_fallback_not_redirect:
  "fst (Handler_fallback ops r ks ctx) \<noteq> OutRedirectSlash"
  "fst (Handler_fallback ops r ks ctx) \<noteq> OutRedirectFixed"
  "fst (Handler_fallback ops r ks ctx) \<noteq> OutHandled"
  using Handler_fallback_outcome [of ops r ks ctx] by auto

lemma Handler_outcome: "fst (Handler ops g ks ctx) = fst (Handler_body ops (fields g) ks ctx)"
  by (simp add: Handler_def Let_def)

lemma Handler_returned:
  "snd (Handler_body ops (fields g) ks ctx) = Returned c \<Longrightarrow> snd (Handler ops g ks ctx) = Returned c"
  by (simp add: Handler_def Let_def recv_def)

lemma Handler_body_no_tree:
  "trees r (reqMethod ctx) = None \<Longrightarrow> Handler_body ops r ks ctx = Handler_fallback ops r ks ctx"
  by (simp add: Handler_body_def)

lemma Handler_body_hit:
  "trees r (reqMethod ctx) = Some root \<Longrightarrow> getValue ops root (reqPath ctx) = (Some h, ps, tsr) \<Longrightarrow>
   Handler_body ops r ks ctx = (OutHandled, h (setUserValues ctx ps))"
  by (simp add: Handler_body_def)

lemma Handler_body_miss_exempt:
  "trees r (reqMethod ctx) = Some root \<Longrightarrow> getValue ops root (reqPath ctx) = (None, ps, tsr) \<Longrightarrow>
   reqMethod ctx = ''CONNECT'' \<or> reqPath ctx = ''/'' \<Longrightarrow>
   Handler_body ops r ks ctx = Handler_fallback ops r ks (setUserValues ctx ps)"
  by (erule disjE) (simp_all add: Handler_body_def)

lemma Handler_body_miss_slash:
  "trees r (reqMethod ctx) = Some root \<Longrightarrow> getValue ops root (reqPath ctx) = (None, ps, tsr) \<Longrightarrow>
   reqMethod ctx \<noteq> ''CONNECT'' \<Longrightarrow> reqPath ctx \<noteq> ''/'' \<Longrightarrow> tsr \<Longrightarrow> RedirectTrailingSlash r \<Longrightarrow>
   Handler_body ops r ks ctx =
     (OutRedirectSlash,
      Returned (Redirect (setUserValues ctx ps)
        ((if length (reqPath ctx) > 1 \<and> last (reqPath ctx) = CHR ''/''
          then butlast (reqPath ctx) else reqPath ctx @ ''/'') @
         (if length (uriQueryString ctx) > 0 then ''?'' @ queryArgsString (setUserValues ctx ps) else []))
        (redirectCode (reqMethod ctx))))"
  by (simp add: Handler_body_def Let_def redirectCode_def)

lemma Handler_body_miss_fixed:
  "trees r (reqMethod ctx) = Some root \<Longrightarrow> getValue ops root (reqPath ctx) = (None, ps, tsr) \<Longrightarrow>
   reqMethod ctx \<noteq> ''CONNECT'' \<Longrightarrow> reqPath ctx \<noteq> ''/'' \<Longrightarrow> \<not> (tsr \<and> RedirectTrailingSlash r) \<Longrightarrow>
   RedirectFixedPath r \<Longrightarrow>
   findCaseInsensitivePath ops root (cleanPath ops (reqPath ctx)) (RedirectTrailingSlash r) = (fixedPath, True) \<Longrightarrow>
   Handler_body ops r ks ctx =
     (OutRedirectFixed,
      Returned (Redirect (setUserValues ctx ps)
        (fixedPath @ (if length (uriQueryString ctx) > 0 then ''?'' @ uriQueryString ctx else []))
        (redirectCode (reqMethod ctx))))"
  by (simp add: Handler_body_def Let_def redirectCode_def)

lemma Handler_body_miss_plain:
  assumes "trees r (reqMethod ctx) = Some root"
    and "getValue ops root (reqPath ctx) = (None, ps, tsr)"
    and nts: "(tsr \<and> RedirectTrailingSlash r) = False"
    and nfx: "(RedirectFixedPath r \<and>
       snd (findCaseInsensitivePath ops root (cleanPath ops (reqPath ctx)) (RedirectTrailingSlash r)))
       = False"
  shows "Handler_body ops r ks ctx = Handler_fallback ops r ks (setUserValues ctx ps)"
proof (cases "RedirectFixedPath r")
  case True
  obtain fp found where
    fc: "findCaseInsensitivePath ops root (cleanPath ops (reqPath ctx)) (RedirectTrailingSlash r)
           = (fp, found)"
    by (cases "findCaseInsensitivePath ops root (cleanPath ops (reqPath ctx)) (RedirectTrailingSlash r)")
  with nfx True have "found = False" by simp
  with fc have fc': "findCaseInsensitivePath ops root (cleanPath ops (reqPath ctx))
      (RedirectTrailingSlash r) = (fp, False)"
    by simp
  from assms(1,2) True show ?thesis
    by (simp add: Handler_body_def Let_def nts fc')
next
  case False
  with assms(1,2) show ?thesis
    by (simp add: Handler_body_def Let_def nts)
qed

lemma Handler_body_cases:
  obtains (no_tree) "trees r (reqMethod ctx) = None"
      "Handler_body ops r ks ctx = Handler_fallback ops r ks ctx"
  | (hit) root h ps tsr where "trees r (reqMethod ctx) = Some root"
      "getValue ops root (reqPath ctx) = (Some h, ps, tsr)"
      "Handler_body ops r ks ctx = (OutHandled, h (setUserValues ctx ps))"
  | (slash) root ps uri where "trees r (reqMethod ctx) = Some root"
      "getValue ops root (reqPath ctx) = (None, ps, True)"
      "reqMethod ctx \<noteq> ''CONNECT''" "reqPath ctx \<noteq> ''/''" "RedirectTrailingSlash r"
      "Handler_body ops r ks ctx =
         (OutRedirectSlash, Returned (Redirect (setUserValues ctx ps) uri (redirectCode (reqMethod ctx))))"
  | (fixed) root ps tsr fp uri where "trees r (reqMethod ctx) = Some root"
      "getValue ops root (reqPath ctx) = (None, ps, tsr)"
      "reqMethod ctx \<noteq> ''CONNECT''" "reqPath ctx \<noteq> ''/''" "\<not> (tsr \<and> RedirectTrailingSlash r)"
      "RedirectFixedPath r"
      "findCaseInsensitivePath ops root (cleanPath ops (reqPath ctx)) (RedirectTrailingSlash r)
         = (fp, True)"
      "Handler_body ops r ks ctx =
         (OutRedirectFixed, Returned (Redirect (setUserValues ctx ps) uri (redirectCode (reqMethod ctx))))"
  | (miss) root ps tsr where "trees r (reqMethod ctx) = Some root"
      "getValue ops root (reqPath ctx) = (None, ps, tsr)"
      "Handler_body ops r ks ctx = Handler_fallback ops r ks (setUserValues ctx ps)"
proof (cases "trees r (reqMethod ctx)")
  case None
  show ?thesis by (rule no_tree [OF None Handler_body_no_tree [OF None]])
next
  case (Some root)
  note tr = Some
  obtain f ps tsr where gv: "getValue ops root (reqPath ctx) = (f, ps, tsr)"
    by (cases "getValue ops root (reqPath ctx)") auto
  show ?thesis
  proof (cases f)
    case (Some h)
    note gv' = gv [unfolded Some]
    show ?thesis by (rule hit [OF tr gv' Handler_body_hit [OF tr gv']])
  next
    case None
    note gv' = gv [unfolded None]
    show ?thesis
    proof (cases "reqMethod ctx = ''CONNECT'' \<or> reqPath ctx = ''/''")
      case True
      show ?thesis by (rule miss [OF tr gv' Handler_body_miss_exempt [OF tr gv' True]])
    next
      case False
      then have e1: "reqMethod ctx \<noteq> ''CONNECT''" and e2: "reqPath ctx \<noteq> ''/''" by simp_all
      show ?thesis
      proof (cases "tsr \<and> RedirectTrailingSlash r")
        case True
        then have t: tsr and ts: "RedirectTrailingSlash r" by simp_all
        note gv'' = gv' [unfolded eqTrueI [OF t]]
        show ?thesis
          by (rule slash [OF tr gv'' e1 e2 ts Handler_body_miss_slash [OF tr gv'' e1 e2 TrueI ts]])
      next
        case nts: False
        obtain fp found where
          fc: "findCaseInsensitivePath ops root (cleanPath ops (reqPath ctx)) (RedirectTrailingSlash r)
                = (fp, found)"
          by (cases "findCaseInsensitivePath ops root (cleanPath ops (reqPath ctx)) (RedirectTrailingSlash r)")
        show ?thesis
        proof (cases "RedirectFixedPath r \<and> found")
          case True
          then have rf: "RedirectFixedPath r" and fd: found by simp_all
          note fc' = fc [unfolded eqTrueI [OF fd]]
          show ?thesis
            by (rule fixed [OF tr gv' e1 e2 nts rf fc'
                  Handler_body_miss_fixed [OF tr gv' e1 e2 nts rf fc']])
        next
          case False
          with fc have nf: "(RedirectFixedPath r \<and>
            snd (findCaseInsensitivePath ops root (cleanPath ops (reqPath ctx)) (RedirectTrailingSlash r)))
            = False"
            by simp
          from nts have nts': "(tsr \<and> RedirectTrailingSlash r) = False" by simp
          show ?thesis by (rule miss [OF tr gv' Handler_body_miss_plain [OF tr gv' nts' nf]])
        qed
      qed
    qed
  qed
qed

lemma Handler_body_redirect:
  assumes "fst (Handler_body ops r ks ctx) = OutRedirectSlash
           \<or> fst (Handler_body ops r ks ctx) = OutRedirectFixed"
  shows "\<exists>c uri. snd (Handler_body ops r ks ctx) =
            Returned (Redirect c uri (redirectCode (reqMethod ctx)))"
proof (cases rule: Handler_body_cases [of r ctx ops ks])
  case no_tree
  with assms show ?thesis by (simp add: Handler_fallback_not_redirect)
next
  case (hit root h ps tsr)
  with assms show ?thesis by simp
next
  case (slash root ps uri)
  then show ?thesis by auto
next
  case (fixed root ps tsr uri)
  then show ?thesis by auto
next
  case (miss root ps tsr)
  with assms show ?thesis by (simp add: Handler_fallback_not_redirect)
qed

text \<open>
  C1 (as amended).  Whenever \<open>Handler\<close> redirects, by the trailing-slash rule or by the
  fixed-path rule, it returns normally with a \<open>Location\<close> header and the status code is
  301 when the request method is \<open>GET\<close> and 307 for every other method (\<open>HEAD\<close>
  included).
\<close>

theorem redirect_status:
  assumes "fst (Handler ops g ks ctx) = OutRedirectSlash
           \<or> fst (Handler ops g ks ctx) = OutRedirectFixed"
  shows "returned (snd (Handler ops g ks ctx))
         \<and> statusCode (resultCtx (snd (Handler ops g ks ctx))) =
             (if reqMethod ctx = ''GET'' then 301 else 307)
         \<and> respHeaders (resultCtx (snd (Handler ops g ks ctx))) ''Location'' \<noteq> None"
proof -
  from assms have "fst (Handler_body ops (fields g) ks ctx) = OutRedirectSlash
           \<or> fst (Handler_body ops (fields g) ks ctx) = OutRedirectFixed"
    by (simp add: Handler_outcome)
  then obtain c uri where
    "snd (Handler_body ops (fields g) ks ctx) =
       Returned (Redirect c uri (redirectCode (reqMethod ctx)))"
    using Handler_body_redirect by blast
  then have "snd (Handler ops g ks ctx) =
       Returned (Redirect c uri (redirectCode (reqMethod ctx)))"
    by (rule Handler_returned)
  then show ?thesis by (simp add: Redirect_def setHeader_def redirectCode_def)
qed

lemma routerWith_foo:
  "routerWith m ''/foo'' =
     Router ((fields New)\<lparr>trees := [m \<mapsto> [(''/foo'', okHandler)]],
                          registeredPaths := [m \<mapsto> [''/foo'']]\<rparr>) None"
  by (simp add: routerWith_def New_def static_ops_def paths_of_def static_getOptionalPaths_def
      isOptional_def static_addRoute_def Let_def)

lemma slash_redirect_example:
  "m \<noteq> ''CONNECT'' \<Longrightarrow> Handler static_ops (routerWith m ''/foo'') ks (request m ''/foo/'') =
     (OutRedirectSlash, Returned (Redirect (request m ''/foo/'') ''/foo'' (if m \<noteq> ''GET'' then 307 else 301)))"
  by (simp add: Handler_def Handler_body_def Let_def routerWith_foo New_def static_ops_def
        static_getValue_def toggleSlash_def request_def setUserValues_def)

text \<open>
  C1 as stated fails for \<open>HEAD\<close>: with \<open>/foo\<close> registered for \<open>HEAD\<close>, serving
  \<open>HEAD /foo/\<close> is a trailing-slash redirect with status 307, not 301.
\<close>

theorem redirect_HEAD_counterexample:
  "fst (Handler static_ops (routerWith ''HEAD'' ''/foo'') [''HEAD''] (request ''HEAD'' ''/foo/''))
     = OutRedirectSlash
   \<and> statusCode (resultCtx (snd (Handler static_ops (routerWith ''HEAD'' ''/foo'') [''HEAD'']
        (request ''HEAD'' ''/foo/'')))) = 307
   \<and> statusCode (resultCtx (snd (Handler static_ops (routerWith ''HEAD'' ''/foo'') [''HEAD'']
        (request ''HEAD'' ''/foo/'')))) \<noteq> 301"
  by (simp add: slash_redirect_example Redirect_def)

text \<open>The trailing-slash scenario of the specification: 307 for \<open>POST\<close>, 301 for \<open>GET\<close>.\<close>

theorem redirect_status_witness:
  "statusCode (resultCtx (snd (Handler static_ops (routerWith ''POST'' ''/foo'') [''POST'']
        (request ''POST'' ''/foo/'')))) = 307
  \<and> statusCode (resultCtx (snd (Handler static_ops (routerWith ''GET'' ''/foo'') [''GET'']
        (request ''GET'' ''/foo/'')))) = 301"
proof -
  have p: "fst (Handler static_ops (routerWith ''POST'' ''/foo'') [''POST''] (request ''POST'' ''/foo/''))
           = OutRedirectSlash"
    by (simp add: slash_redirect_example)
  have g: "fst (Handler static_ops (routerWith ''GET'' ''/foo'') [''GET''] (request ''GET'' ''/foo/''))
           = OutRedirectSlash"
    by (simp add: slash_redirect_example)
  from redirect_status [OF disjI1 [OF p]] redirect_status [OF disjI1 [OF g]]
  show ?thesis by (simp add: request_def)
qed

section \<open>Panics of a handler\<close>

lemma Handler_hit:
  assumes "trees (fields g) (reqMethod ctx) = Some root"
    and "getValue ops root (reqPath ctx) = (Some f, ps, tsr)"
  shows "Handler ops g ks ctx =
           (OutHandled,
            if PanicHandler (fields g) \<noteq> None then recv (fields g) (f (setUserValues ctx ps))
            else f (setUserValues ctx ps))"
  by (simp add: Handler_def Let_def Handler_body_hit [OF assms])

text \<open>
  C3 (as amended).  Let the matched handler panic with value \<open>v\<close>, leaving the context
  \<open>c\<close>.  With a \<open>PanicHandler\<close> configured the panic does not leave \<open>Handler\<close>.  When
  \<open>v\<close> is not nil the \<open>PanicHandler\<close> is called once, with \<open>c\<close> and \<open>v\<close>, and \<open>Handler\<close>
  ends as that call ends: it returns normally if and only if the \<open>PanicHandler\<close> returns,
  and a panic of the \<open>PanicHandler\<close> reaches the caller of \<open>Handler\<close>.  When \<open>v\<close> is nil
  \<open>Handler\<close> returns normally and the \<open>PanicHandler\<close> is not called.  Without a
  \<open>PanicHandler\<close> the panic \<open>v\<close> reaches the caller of \<open>Handler\<close>.
\<close>

theorem panic_is_recovered:
  assumes "trees (fields g) (reqMethod ctx) = Some root"
    and "getValue ops root (reqPath ctx) = (Some f, ps, tsr)"
    and "f (setUserValues ctx ps) = Panicked v c"
  shows "(PanicHandler (fields g) = Some ph \<and> v \<noteq> NilValue \<longrightarrow>
            Handler ops g ks ctx = (OutHandled, ph c v)
            \<and> returned (snd (Handler ops g ks ctx)) = returned (ph c v))
       \<and> (PanicHandler (fields g) = Some ph \<and> v = NilValue \<longrightarrow>
            Handler ops g ks ctx = (OutHandled, Returned c))
       \<and> (PanicHandler (fields g) = None \<longrightarrow>
            Handler ops g ks ctx = (OutHandled, Panicked v c))"
  by (simp add: Handler_hit [OF assms(1,2)] assms(3) recv_def)

lemma boomRouter_eq:
  "boomRouter =
     Router ((fields New)\<lparr>trees := [''GET'' \<mapsto> [(''/boom'', boomHandler)]],
                          registeredPaths := [''GET'' \<mapsto> [''/boom'']]\<rparr>) None"
  by (simp add: boomRouter_def New_def static_ops_def paths_of_def static_getOptionalPaths_def
      isOptional_def static_addRoute_def Let_def)

lemma boom_facts:
  "trees (fields (withPanicHandler boomRouter ph)) (reqMethod (request ''GET'' ''/boom''))
     = Some [(''/boom'', boomHandler)]"
  "trees (fields boomRouter) (reqMethod (request ''GET'' ''/boom'')) = Some [(''/boom'', boomHandler)]"
  "getValue static_ops [(''/boom'', boomHandler)] (reqPath (request ''GET'' ''/boom''))
     = (Some boomHandler, [], False)"
  "boomHandler (setUserValues (request ''GET'' ''/boom'') [])
     = Panicked (PanicValue ''boom'') ((request ''GET'' ''/boom'')\<lparr>respBody := ''partial''\<rparr>)"
  "PanicHandler (fields (withPanicHandler boomRouter ph)) = Some ph"
  "PanicHandler (fields boomRouter) = None"
  by (simp_all add: withPanicHandler_def boomRouter_eq request_def static_ops_def
        static_getValue_def boomHandler_def setUserValues_def New_def)

theorem panic_is_recovered_witness:
  "snd (Handler static_ops (withPanicHandler boomRouter report500) [''GET''] (request ''GET'' ''/boom''))
     = Returned ((request ''GET'' ''/boom'')\<lparr>statusCode := 500, respBody := ''boom''\<rparr>)
   \<and> snd (Handler static_ops boomRouter [''GET''] (request ''GET'' ''/boom''))
     = Panicked (PanicValue ''boom'') ((request ''GET'' ''/boom'')\<lparr>respBody := ''partial''\<rparr>)"
proof -
  let ?ctx = "request ''GET'' ''/boom''"
  let ?c = "?ctx\<lparr>respBody := ''partial''\<rparr>"
  have rep: "report500 ?c (PanicValue ''boom'') = Returned (?ctx\<lparr>statusCode := 500, respBody := ''boom''\<rparr>)"
    by (simp add: report500_def request_def)
  from panic_is_recovered [OF boom_facts(1) boom_facts(3) boom_facts(4), of report500 report500 "[''GET'']"]
       boom_facts(5) [of report500] rep
  have a: "snd (Handler static_ops (withPanicHandler boomRouter report500) [''GET''] ?ctx)
             = Returned (?ctx\<lparr>statusCode := 500, respBody := ''boom''\<rparr>)"
    by simp
  from panic_is_recovered [OF boom_facts(2) boom_facts(3) boom_facts(4), of report500 "[''GET'']"]
       boom_facts(6)
  have b: "snd (Handler static_ops boomRouter [''GET''] ?ctx) = Panicked (PanicValue ''boom'') ?c"
    by simp
  from a b show ?thesis by simp
qed

text \<open>
  C3 as stated fails when the failure handler panics itself: the handler of \<open>/boom\<close>
  panics, \<open>rethrow\<close> is configured and is called with the captured value, and \<open>Handler\<close>
  does not return normally.
\<close>

theorem panic_handler_rethrows_counterexample:
  "PanicHandler (fields (withPanicHandler boomRouter rethrow)) = Some rethrow
   \<and> boomHandler (request ''GET'' ''/boom'')
       = Panicked (PanicValue ''boom'') ((request ''GET'' ''/boom'')\<lparr>respBody := ''partial''\<rparr>)
   \<and> \<not> returned (snd (Handler static_ops (withPanicHandler boomRouter rethrow) [''GET'']
                         (request ''GET'' ''/boom'')))
   \<and> snd (Handler static_ops (withPanicHandler boomRouter rethrow) [''GET''] (request ''GET'' ''/boom''))
       = Panicked (PanicValue ''failure handler failed'')
           ((request ''GET'' ''/boom'')\<lparr>respBody := ''partial''\<rparr>)"
proof -
  have h: "Handler static_ops (withPanicHandler boomRouter rethrow) [''GET''] (request ''GET'' ''/boom'')
             = (OutHandled, Panicked (PanicValue ''failure handler failed'')
                  ((request ''GET'' ''/boom'')\<lparr>respBody := ''partial''\<rparr>))"
    by (simp add: Handler_hit [OF boom_facts(1) boom_facts(3)] boom_facts recv_def rethrow_def)
  have b: "boomHandler (request ''GET'' ''/boom'')
       = Panicked (PanicValue ''boom'') ((request ''GET'' ''/boom'')\<lparr>respBody := ''partial''\<rparr>)"
    by (simp add: boomHandler_def)
  show ?thesis by (simp add: h b boom_facts(5))
qed

section \<open>Requests exempt from redirection, and \<open>Lookup\<close>\<close>

lemma afterLookup_no_tree:
  "trees r (reqMethod ctx) = None \<Longrightarrow> afterLookup ops r ctx = ctx"
  by (simp add: afterLookup_def)

lemma afterLookup_tree:
  "trees r (reqMethod ctx) = Some root \<Longrightarrow> getValue ops root (reqPath ctx) = (f, ps, tsr) \<Longrightarrow>
   afterLookup ops r ctx = setUserValues ctx ps"
  by (simp add: afterLookup_def)

text \<open>
  C4.  For method \<open>CONNECT\<close> and for the path \<open>/\<close>, \<open>Handler\<close> takes neither redirect:
  it invokes the exactly matching handler, or else runs the part of \<open>Handler\<close> that
  follows the lookup (\<open>Handler_fallback\<close>: the \<open>OPTIONS\<close> reply, 405 or 404), which
  contains no redirect.
\<close>

theorem no_redirect_for_CONNECT_or_root:
  assumes "reqMethod ctx = ''CONNECT'' \<or> reqPath ctx = ''/''"
  shows "fst (Handler ops g ks ctx) \<noteq> OutRedirectSlash
       \<and> fst (Handler ops g ks ctx) \<noteq> OutRedirectFixed
       \<and> fst (Handler ops g ks ctx) \<in> {OutHandled, OutOptions, OutMethodNotAllowed, OutNotFound}
       \<and> Handler_body ops (fields g) ks ctx =
           (case trees (fields g) (reqMethod ctx) of
              None \<Rightarrow> Handler_fallback ops (fields g) ks ctx
            | Some root \<Rightarrow>
                (case fst (getValue ops root (reqPath ctx)) of
                   Some h \<Rightarrow> (OutHandled, h (afterLookup ops (fields g) ctx))
                 | None \<Rightarrow> Handler_fallback ops (fields g) ks (afterLookup ops (fields g) ctx)))"
proof -
  have main: "fst (Handler ops g ks ctx) \<noteq> OutRedirectSlash
       \<and> fst (Handler ops g ks ctx) \<noteq> OutRedirectFixed
       \<and> Handler_body ops (fields g) ks ctx =
           (case trees (fields g) (reqMethod ctx) of
              None \<Rightarrow> Handler_fallback ops (fields g) ks ctx
            | Some root \<Rightarrow>
                (case fst (getValue ops root (reqPath ctx)) of
                   Some h \<Rightarrow> (OutHandled, h (afterLookup ops (fields g) ctx))
                 | None \<Rightarrow> Handler_fallback ops (fields g) ks (afterLookup ops (fields g) ctx)))"
  proof (cases rule: Handler_body_cases [of "fields g" ctx ops ks])
    case no_tree
    then show ?thesis by (simp add: Handler_outcome Handler_fallback_not_redirect)
  next
    case (hit root h ps tsr)
    then show ?thesis by (simp add: Handler_outcome afterLookup_tree)
  next
    case (slash root ps uri)
    with assms show ?thesis by auto
  next
    case (fixed root ps tsr fp uri)
    with assms show ?thesis by auto
  next
    case (miss root ps tsr)
    then show ?thesis by (simp add: Handler_outcome Handler_fallback_not_redirect afterLookup_tree)
  qed
  then have "fst (Handler ops g ks ctx) \<in> {OutHandled, OutOptions, OutMethodNotAllowed, OutNotFound}"
    by (cases "fst (Handler ops g ks ctx)") simp_all
  with main show ?thesis by simp
qed

theorem no_redirect_for_CONNECT_or_root_witness:
  "fst (Handler static_ops (routerWith ''CONNECT'' ''/foo'') [''CONNECT''] (request ''CONNECT'' ''/foo/''))
     \<noteq> OutRedirectSlash
   \<and> snd (snd (getValue static_ops [(''/foo'', okHandler)] ''/foo/''))
   \<and> fst (Handler static_ops (routerWith ''GET'' ''/foo'') [''GET''] (request ''GET'' ''/''))
     \<noteq> OutRedirectFixed"
proof -
  have c: "reqMethod (request ''CONNECT'' ''/foo/'') = ''CONNECT'' \<or> reqPath (request ''CONNECT'' ''/foo/'') = ''/''"
    by (simp add: request_def)
  have p: "reqMethod (request ''GET'' ''/'') = ''CONNECT'' \<or> reqPath (request ''GET'' ''/'') = ''/''"
    by (simp add: request_def)
  have t: "snd (snd (getValue static_ops [(''/foo'', okHandler)] ''/foo/''))"
    by (simp add: static_ops_def static_getValue_def toggleSlash_def)
  from no_redirect_for_CONNECT_or_root [OF c, of static_ops "routerWith ''CONNECT'' ''/foo''" "[''CONNECT'']"]
       no_redirect_for_CONNECT_or_root [OF p, of static_ops "routerWith ''GET'' ''/foo''" "[''GET'']"] t
  show ?thesis by simp
qed

lemma Lookup_no_tree:
  "trees (fields g) m = None \<Longrightarrow> Lookup ops g m p co = ((None, False), co)"
  by (simp add: Lookup_def)

lemma Lookup_tree:
  "trees (fields g) m = Some root \<Longrightarrow>
   Lookup ops g m p co =
     ((fst (getValue ops root p), snd (snd (getValue ops root p))),
      map_option (\<lambda>c. setUserValues c (fst (snd (getValue ops root p)))) co)"
  by (simp add: Lookup_def split: prod.splits)

lemma Lookup_keeps_response:
  assumes "snd (Lookup ops g m p (Some c)) = Some c'"
  shows "c' = c\<lparr>userValues := userValues c'\<rparr>"
proof (cases "trees (fields g) m")
  case None
  with assms show ?thesis by (simp add: Lookup_no_tree)
next
  case (Some root)
  with assms show ?thesis by (auto simp add: Lookup_tree setUserValues_def)
qed

lemma Handled_iff_Lookup:
  "(fst (Handler_body ops (fields g) ks ctx) = OutHandled) =
     (fst (fst (Lookup ops g (reqMethod ctx) (reqPath ctx) (Some ctx))) \<noteq> None)"
proof (cases rule: Handler_body_cases [of "fields g" ctx ops ks])
  case no_tree
  then show ?thesis by (simp add: Lookup_no_tree Handler_fallback_not_redirect)
next
  case (hit root h ps tsr)
  then show ?thesis by (simp add: Lookup_tree)
next
  case (slash root ps uri)
  then show ?thesis by (simp add: Lookup_tree)
next
  case (fixed root ps tsr fp uri)
  then show ?thesis by (simp add: Lookup_tree)
next
  case (miss root ps tsr)
  then show ?thesis by (simp add: Lookup_tree Handler_fallback_not_redirect)
qed

lemma Lookup_handler_is_invoked:
  assumes "fst (fst (Lookup ops g (reqMethod ctx) (reqPath ctx) (Some ctx))) = Some h"
  shows "Handler_body ops (fields g) ks ctx = (OutHandled, h (afterLookup ops (fields g) ctx))
       \<and> snd (Lookup ops g (reqMethod ctx) (reqPath ctx) (Some ctx))
           = Some (afterLookup ops (fields g) ctx)"
proof (cases "trees (fields g) (reqMethod ctx)")
  case None
  with assms show ?thesis by (simp add: Lookup_no_tree)
next
  case (Some root)
  obtain f ps tsr where gv: "getValue ops root (reqPath ctx) = (f, ps, tsr)"
    by (cases "getValue ops root (reqPath ctx)") auto
  with assms Some have "f = Some h" by (simp add: Lookup_tree)
  with gv have gv': "getValue ops root (reqPath ctx) = (Some h, ps, tsr)" by simp
  from Handler_body_hit [OF Some gv', of ks] afterLookup_tree [OF Some gv'] Some gv'
  show ?thesis by (simp add: Lookup_tree)
qed

lemma RedirectSlash_iff_Lookup:
  "(fst (Handler_body ops (fields g) ks ctx) = OutRedirectSlash) =
     (fst (fst (Lookup ops g (reqMethod ctx) (reqPath ctx) (Some ctx))) = None
      \<and> snd (fst (Lookup ops g (reqMethod ctx) (reqPath ctx) (Some ctx)))
      \<and> RedirectTrailingSlash (fields g)
      \<and> reqMethod ctx \<noteq> ''CONNECT'' \<and> reqPath ctx \<noteq> ''/'')"
proof (cases rule: Handler_body_cases [of "fields g" ctx ops ks])
  case no_tree
  then show ?thesis by (simp add: Lookup_no_tree Handler_fallback_not_redirect)
next
  case (hit root h ps tsr)
  then show ?thesis by (simp add: Lookup_tree)
next
  case (slash root ps uri)
  then show ?thesis by (simp add: Lookup_tree)
next
  case (fixed root ps tsr fp uri)
  then show ?thesis by (auto simp add: Lookup_tree)
next
  case (miss root ps tsr)
  note m = this
  show ?thesis
  proof (cases "reqMethod ctx \<noteq> ''CONNECT'' \<and> reqPath ctx \<noteq> ''/'' \<and> tsr \<and> RedirectTrailingSlash (fields g)")
    case True
    then have e1: "reqMethod ctx \<noteq> ''CONNECT''" and e2: "reqPath ctx \<noteq> ''/''"
      and t: tsr and ts: "RedirectTrailingSlash (fields g)" by simp_all
    from Handler_body_miss_slash [OF m(1,2) e1 e2 t ts, of ks] m(3)
    have "fst (Handler_fallback ops (fields g) ks (setUserValues ctx ps)) = OutRedirectSlash"
      by simp
    then show ?thesis by (simp add: Handler_fallback_not_redirect)
  next
    case False
    with m show ?thesis by (auto simp add: Lookup_tree Handler_fallback_not_redirect)
  qed
qed

text \<open>
  C7.  \<open>Lookup(method, path, ctx)\<close> returns the handler and the trailing-slash flag of
  \<open>getValue\<close> on the method's tree, and \<open>(nil, false)\<close> when the method has no tree.  It
  changes nothing of the context but the user values.  It is the matching of \<open>Handler\<close>:
  \<open>Handler\<close> invokes a handler exactly when \<open>Lookup\<close> finds one, and then this one on
  the context \<open>Lookup\<close> leaves; and \<open>Handler\<close> takes the trailing-slash redirect exactly
  when \<open>Lookup\<close> finds no handler and reports the flag, the redirection is enabled and
  the request is not exempt.
\<close>

theorem Lookup_same_matching:
  "(trees (fields g) m = None \<longrightarrow> Lookup ops g m p co = ((None, False), co))
 \<and> (\<forall>root. trees (fields g) m = Some root \<longrightarrow>
       Lookup ops g m p co =
         ((fst (getValue ops root p), snd (snd (getValue ops root p))),
          map_option (\<lambda>c. setUserValues c (fst (snd (getValue ops root p)))) co))
 \<and> (\<forall>c c'. snd (Lookup ops g m p (Some c)) = Some c' \<longrightarrow> c' = c\<lparr>userValues := userValues c'\<rparr>)
 \<and> ((fst (Handler_body ops (fields g) ks ctx) = OutHandled) =
     (fst (fst (Lookup ops g (reqMethod ctx) (reqPath ctx) (Some ctx))) \<noteq> None))
 \<and> (\<forall>h. fst (fst (Lookup ops g (reqMethod ctx) (reqPath ctx) (Some ctx))) = Some h \<longrightarrow>
       Handler_body ops (fields g) ks ctx = (OutHandled, h (afterLookup ops (fields g) ctx))
       \<and> snd (Lookup ops g (reqMethod ctx) (reqPath ctx) (Some ctx))
           = Some (afterLookup ops (fields g) ctx))
 \<and> ((fst (Handler_body ops (fields g) ks ctx) = OutRedirectSlash) =
     (fst (fst (Lookup ops g (reqMethod ctx) (reqPath ctx) (Some ctx))) = None
      \<and> snd (fst (Lookup ops g (reqMethod ctx) (reqPath ctx) (Some ctx)))
      \<and> RedirectTrailingSlash (fields g)
      \<and> reqMethod ctx \<noteq> ''CONNECT'' \<and> reqPath ctx \<noteq> ''/''))"
  using Lookup_no_tree [of g m ops p co] Lookup_tree [of g m _ ops p co]
    Lookup_keeps_response [of ops g m p] Handled_iff_Lookup [of ops g ks ctx]
    Lookup_handler_is_invoked [of ops g ctx _ ks] RedirectSlash_iff_Lookup [of ops g ks ctx]
  by blast

theorem Lookup_same_matching_witness:
  "fst (Lookup static_ops (routerWith ''GET'' ''/foo'') ''GET'' ''/foo/'' None) = (None, True)
   \<and> Lookup static_ops (routerWith ''GET'' ''/foo'') ''POST'' ''/foo'' (Some (request ''POST'' ''/foo''))
       = ((None, False), Some (request ''POST'' ''/foo''))
   \<and> fst (Handler_body static_ops (fields (routerWith ''GET'' ''/foo'')) [''GET''] (request ''GET'' ''/foo''))
       = OutHandled
   \<and> fst (Handler_body static_ops (fields (routerWith ''GET'' ''/foo'')) [''GET''] (request ''GET'' ''/foo/''))
       = OutRedirectSlash"
proof -
  let ?g = "routerWith ''GET'' ''/foo''"
  have t: "trees (fields ?g) ''GET'' = Some [(''/foo'', okHandler)]"
    by (simp add: routerWith_foo)
  have n: "trees (fields ?g) ''POST'' = None"
    by (simp add: routerWith_foo New_def)
  have ts: "RedirectTrailingSlash (fields ?g)"
    by (simp add: routerWith_foo New_def)
  have gv1: "getValue static_ops [(''/foo'', okHandler)] ''/foo/'' = (None, [], True)"
    by (simp add: static_ops_def static_getValue_def toggleSlash_def)
  have gv2: "getValue static_ops [(''/foo'', okHandler)] ''/foo'' = (Some okHandler, [], False)"
    by (simp add: static_ops_def static_getValue_def toggleSlash_def)
  note L1 = Lookup_same_matching [of ?g "''GET''" static_ops "''/foo/''" None "[''GET'']" "request ''GET'' ''/foo''"]
  note L2 = Lookup_same_matching [of ?g "''POST''" static_ops "''/foo''" "Some (request ''POST'' ''/foo'')"
              "[''GET'']" "request ''GET'' ''/foo/''"]
  from L1 t gv1 have a: "fst (Lookup static_ops ?g ''GET'' ''/foo/'' None) = (None, True)"
    by simp
  from L2 n have b: "Lookup static_ops ?g ''POST'' ''/foo'' (Some (request ''POST'' ''/foo''))
       = ((None, False), Some (request ''POST'' ''/foo''))"
    by simp
  have l3: "fst (fst (Lookup static_ops ?g (reqMethod (request ''GET'' ''/foo''))
              (reqPath (request ''GET'' ''/foo'')) (Some (request ''GET'' ''/foo'')))) = Some okHandler"
    by (simp add: Lookup_def request_def t gv2)
  from L1 l3 have c: "fst (Handler_body static_ops (fields ?g) [''GET''] (request ''GET'' ''/foo'')) = OutHandled"
    by simp
  have l4: "fst (Lookup static_ops ?g (reqMethod (request ''GET'' ''/foo/''))
              (reqPath (request ''GET'' ''/foo/'')) (Some (request ''GET'' ''/foo/''))) = (None, True)"
    by (simp add: Lookup_def request_def t gv1)
  have rq: "reqMethod (request ''GET'' ''/foo/'') \<noteq> ''CONNECT''" "reqPath (request ''GET'' ''/foo/'') \<noteq> ''/''"
    by (simp_all add: request_def)
  from L2 l4 ts rq have d: "fst (Handler_body static_ops (fields ?g) [''GET''] (request ''GET'' ''/foo/'')) = OutRedirectSlash"
    by simp
  from a b c d show ?thesis by simp
qed

section \<open>Not Found\<close>

lemma allowedForPath_no_match:
  assumes "\<forall>m n. ts m = Some n \<longrightarrow> fst (getValue ops n path) = None"
  shows "allowedForPath ops ts path reqM ks allow = allow"
  using assms by (induction ks arbitrary: allow) (auto split: option.splits)

lemma allowed_no_match:
  assumes "\<forall>m n. trees r m = Some n \<longrightarrow> fst (getValue ops n path) = None"
    and "(path \<noteq> ''*'' \<and> path \<noteq> ''/*'') \<or> ks = []"
  shows "allowed ops r ks path reqM = []"
  using assms(2) by (auto simp add: allowed_def allowedForPath_no_match [OF assms(1)])

lemma Handler_fallback_no_allow:
  "allowed ops r ks (reqPath ctx) (reqMethod ctx) = [] \<Longrightarrow>
   Handler_fallback ops r ks ctx = Handler_notFound r ctx"
  by (cases "reqMethod ctx = ''OPTIONS''") (simp_all add: Handler_fallback_def Let_def)

lemma redirect_outcomes:
  "(fst (Handler_body ops r ks ctx) = OutRedirectSlash) = slashRedirectApplies ops r ctx"
  "(fst (Handler_body ops r ks ctx) = OutRedirectFixed) = fixedRedirectApplies ops r ctx"
proof -
  have "(fst (Handler_body ops r ks ctx) = OutRedirectSlash) = slashRedirectApplies ops r ctx
      \<and> (fst (Handler_body ops r ks ctx) = OutRedirectFixed) = fixedRedirectApplies ops r ctx"
  proof (cases "trees r (reqMethod ctx)")
    case None
    then show ?thesis
      by (simp add: Handler_body_no_tree Handler_fallback_not_redirect
            slashRedirectApplies_def fixedRedirectApplies_def)
  next
    case (Some root)
    obtain f ps tsr where gv: "getValue ops root (reqPath ctx) = (f, ps, tsr)"
      by (cases "getValue ops root (reqPath ctx)") auto
    show ?thesis
    proof (cases f)
      case (Some h)
      with gv have gv': "getValue ops root (reqPath ctx) = (Some h, ps, tsr)" by simp
      from Handler_body_hit [OF \<open>trees r (reqMethod ctx) = Some root\<close> gv', of ks]
           \<open>trees r (reqMethod ctx) = Some root\<close> gv'
      show ?thesis by (simp add: slashRedirectApplies_def fixedRedirectApplies_def)
    next
      case None
      with gv have gv': "getValue ops root (reqPath ctx) = (None, ps, tsr)" by simp
      note tr = \<open>trees r (reqMethod ctx) = Some root\<close>
      show ?thesis
      proof (cases "reqMethod ctx = ''CONNECT'' \<or> reqPath ctx = ''/''")
        case True
        from Handler_body_miss_exempt [OF tr gv' True, of ks] tr gv' True
        show ?thesis
          by (auto simp add: Handler_fallback_not_redirect
                slashRedirectApplies_def fixedRedirectApplies_def)
      next
        case False
        then have e1: "reqMethod ctx \<noteq> ''CONNECT''" and e2: "reqPath ctx \<noteq> ''/''" by simp_all
        show ?thesis
        proof (cases "tsr \<and> RedirectTrailingSlash r")
          case True
          then have t: tsr and ts: "RedirectTrailingSlash r" by simp_all
          from Handler_body_miss_slash [OF tr gv' e1 e2 t ts, of ks] tr gv' e1 e2 t ts
          show ?thesis by (simp add: slashRedirectApplies_def fixedRedirectApplies_def)
        next
          case nts: False
          obtain fp found where
            fc: "findCaseInsensitivePath ops root (cleanPath ops (reqPath ctx))
                   (RedirectTrailingSlash r) = (fp, found)"
            by (cases "findCaseInsensitivePath ops root (cleanPath ops (reqPath ctx))
                         (RedirectTrailingSlash r)")
          show ?thesis
          proof (cases "RedirectFixedPath r \<and> found")
            case True
            then have rf: "RedirectFixedPath r" and fd: found by simp_all
            from fc fd have fc': "findCaseInsensitivePath ops root (cleanPath ops (reqPath ctx))
                   (RedirectTrailingSlash r) = (fp, True)" by simp
            from Handler_body_miss_fixed [OF tr gv' e1 e2 nts rf fc', of ks] tr gv' e1 e2 nts rf fc'
            show ?thesis by (simp add: slashRedirectApplies_def fixedRedirectApplies_def)
          next
            case False
            with fc have nf: "(RedirectFixedPath r \<and>
              snd (findCaseInsensitivePath ops root (cleanPath ops (reqPath ctx))
                     (RedirectTrailingSlash r))) = False"
              by simp
            from nts have nts': "(tsr \<and> RedirectTrailingSlash r) = False" by simp
            from Handler_body_miss_plain [OF tr gv' nts' nf, of ks] tr gv' nts' nf
            show ?thesis
              by (simp add: Handler_fallback_not_redirect
                    slashRedirectApplies_def fixedRedirectApplies_def)
          qed
        qed
      qed
    qed
  qed
  then show "(fst (Handler_body ops r ks ctx) = OutRedirectSlash) = slashRedirectApplies ops r ctx"
    and "(fst (Handler_body ops r ks ctx) = OutRedirectFixed) = fixedRedirectApplies ops r ctx"
    by simp_all
qed

lemma no_match_not_redirected:
  assumes nomatch: "\<forall>m n. trees r m = Some n \<longrightarrow> fst (getValue ops n (reqPath ctx)) = None"
    and wild: "(reqPath ctx \<noteq> ''*'' \<and> reqPath ctx \<noteq> ''/*'') \<or> ks = []"
    and ns: "\<not> slashRedirectApplies ops r ctx"
    and nf: "\<not> fixedRedirectApplies ops r ctx"
  shows "Handler_body ops r ks ctx = Handler_notFound r (afterLookup ops r ctx)"
proof -
  have al: "\<And>c. reqPath c = reqPath ctx \<Longrightarrow> allowed ops r ks (reqPath c) (reqMethod c) = []"
    using allowed_no_match [of r ops "reqPath ctx" ks] nomatch wild by simp
  have fb: "\<And>ps. Handler_fallback ops r ks (setUserValues ctx ps)
                = Handler_notFound r (setUserValues ctx ps)"
    by (rule Handler_fallback_no_allow) (simp add: al)
  have fb0: "Handler_fallback ops r ks ctx = Handler_notFound r ctx"
    by (rule Handler_fallback_no_allow) (simp add: al)
  show ?thesis
  proof (cases rule: Handler_body_cases [of r ctx ops ks])
    case no_tree
    then show ?thesis by (simp add: fb0 afterLookup_no_tree)
  next
    case (hit root h ps tsr)
    from nomatch hit(1) have "fst (getValue ops root (reqPath ctx)) = None" by blast
    with hit(2) have False by simp
    then show ?thesis ..
  next
    case (slash root ps uri)
    with ns redirect_outcomes(1) [of ops r ks ctx] have False by simp
    then show ?thesis ..
  next
    case (fixed root ps tsr fp uri)
    with nf redirect_outcomes(2) [of ops r ks ctx] have False by simp
    then show ?thesis ..
  next
    case (miss root ps tsr)
    then show ?thesis by (simp add: fb afterLookup_tree)
  qed
qed

lemma redirect_switches_off:
  "\<not> RedirectTrailingSlash r \<and> \<not> RedirectFixedPath r
     \<or> reqMethod ctx = ''CONNECT'' \<or> reqPath ctx = ''/'' \<or> trees r (reqMethod ctx) = None \<Longrightarrow>
   \<not> slashRedirectApplies ops r ctx \<and> \<not> fixedRedirectApplies ops r ctx"
  by (auto simp add: slashRedirectApplies_def fixedRedirectApplies_def split: option.splits)

text \<open>
  C9 (as amended).  Let no tree of the router match the request path, and let the path
  not be the server-wide wildcard (\<open>*\<close> or \<open>/*\<close>), or let the router have no tree at all.
  Then \<open>Handler\<close> takes the trailing-slash redirect exactly when the request method has a
  tree whose lookup reports the trailing-slash flag, \<open>RedirectTrailingSlash\<close> is set and
  the request is not exempt (method \<open>CONNECT\<close>, path \<open>/\<close>); it takes the fixed-path
  redirect exactly when that is not so, the request method has a tree,
  \<open>RedirectFixedPath\<close> is set, the request is not exempt and \<open>findCaseInsensitivePath\<close>
  finds a path; and in every other case it ends in its final block: it calls the
  \<open>NotFound\<close> handler when one is set and otherwise answers with status 404.  In
  particular the outcome is Not Found when both redirections are switched off, when the
  request is exempt, and when the request method has no tree.
\<close>

theorem no_match_redirect_or_not_found:
  assumes nomatch: "\<forall>m n. trees (fields g) m = Some n \<longrightarrow> fst (getValue ops n (reqPath ctx)) = None"
    and wild: "(reqPath ctx \<noteq> ''*'' \<and> reqPath ctx \<noteq> ''/*'') \<or> ks = []"
  shows "((fst (Handler ops g ks ctx) = OutRedirectSlash) = slashRedirectApplies ops (fields g) ctx)
       \<and> ((fst (Handler ops g ks ctx) = OutRedirectFixed) = fixedRedirectApplies ops (fields g) ctx)
       \<and> ((fst (Handler ops g ks ctx) = OutNotFound)
            = (\<not> slashRedirectApplies ops (fields g) ctx \<and> \<not> fixedRedirectApplies ops (fields g) ctx))
       \<and> (\<not> slashRedirectApplies ops (fields g) ctx \<and> \<not> fixedRedirectApplies ops (fields g) ctx \<longrightarrow>
            Handler_body ops (fields g) ks ctx =
              (OutNotFound,
               case NotFound (fields g) of
                 Some nf \<Rightarrow> nf (afterLookup ops (fields g) ctx)
               | None \<Rightarrow> Returned (ctxError (afterLookup ops (fields g) ctx) ''Not Found'' 404)))
       \<and> (\<not> slashRedirectApplies ops (fields g) ctx \<and> \<not> fixedRedirectApplies ops (fields g) ctx
            \<and> NotFound (fields g) = None \<longrightarrow>
            snd (Handler ops g ks ctx)
              = Returned (ctxError (afterLookup ops (fields g) ctx) ''Not Found'' 404)
            \<and> statusCode (resultCtx (snd (Handler ops g ks ctx))) = 404)
       \<and> (\<not> RedirectTrailingSlash (fields g) \<and> \<not> RedirectFixedPath (fields g)
            \<or> reqMethod ctx = ''CONNECT'' \<or> reqPath ctx = ''/''
            \<or> trees (fields g) (reqMethod ctx) = None \<longrightarrow>
            fst (Handler ops g ks ctx) = OutNotFound)"
proof -
  let ?s = "slashRedirectApplies ops (fields g) ctx"
  let ?f = "fixedRedirectApplies ops (fields g) ctx"
  have c1: "(fst (Handler ops g ks ctx) = OutRedirectSlash) = ?s"
    by (simp add: Handler_outcome redirect_outcomes)
  have c2: "(fst (Handler ops g ks ctx) = OutRedirectFixed) = ?f"
    by (simp add: Handler_outcome redirect_outcomes)
  have body: "\<not> ?s \<and> \<not> ?f \<Longrightarrow>
      Handler_body ops (fields g) ks ctx = Handler_notFound (fields g) (afterLookup ops (fields g) ctx)"
    using no_match_not_redirected [OF nomatch wild] by simp
  have c3: "(fst (Handler ops g ks ctx) = OutNotFound) = (\<not> ?s \<and> \<not> ?f)"
  proof
    assume "fst (Handler ops g ks ctx) = OutNotFound"
    with c1 c2 show "\<not> ?s \<and> \<not> ?f" by auto
  next
    assume "\<not> ?s \<and> \<not> ?f"
    from body [OF this] show "fst (Handler ops g ks ctx) = OutNotFound"
      by (simp add: Handler_outcome Handler_notFound_def)
  qed
  have c4: "\<not> ?s \<and> \<not> ?f \<longrightarrow>
            Handler_body ops (fields g) ks ctx =
              (OutNotFound,
               case NotFound (fields g) of
                 Some nf \<Rightarrow> nf (afterLookup ops (fields g) ctx)
               | None \<Rightarrow> Returned (ctxError (afterLookup ops (fields g) ctx) ''Not Found'' 404))"
    using body by (simp add: Handler_notFound_def)
  have c5: "\<not> ?s \<and> \<not> ?f \<and> NotFound (fields g) = None \<longrightarrow>
            snd (Handler ops g ks ctx)
              = Returned (ctxError (afterLookup ops (fields g) ctx) ''Not Found'' 404)
            \<and> statusCode (resultCtx (snd (Handler ops g ks ctx))) = 404"
  proof (intro impI)
    assume a: "\<not> ?s \<and> \<not> ?f \<and> NotFound (fields g) = None"
    then have "snd (Handler_body ops (fields g) ks ctx)
                 = Returned (ctxError (afterLookup ops (fields g) ctx) ''Not Found'' 404)"
      using c4 by simp
    then have "snd (Handler ops g ks ctx)
                 = Returned (ctxError (afterLookup ops (fields g) ctx) ''Not Found'' 404)"
      by (rule Handler_returned)
    then show "snd (Handler ops g ks ctx)
              = Returned (ctxError (afterLookup ops (fields g) ctx) ''Not Found'' 404)
            \<and> statusCode (resultCtx (snd (Handler ops g ks ctx))) = 404"
      by (simp add: ctxError_def)
  qed
  have c6: "\<not> RedirectTrailingSlash (fields g) \<and> \<not> RedirectFixedPath (fields g)
            \<or> reqMethod ctx = ''CONNECT'' \<or> reqPath ctx = ''/''
            \<or> trees (fields g) (reqMethod ctx) = None \<longrightarrow>
            fst (Handler ops g ks ctx) = OutNotFound"
    using redirect_switches_off [of "fields g" ctx ops] c3 by blast
  from c1 c2 c3 c4 c5 c6 show ?thesis by blast
qed

text \<open>
  C9 as stated fails.  With only \<open>GET /foo\<close> registered no route matches \<open>/foo/\<close> under any
  method, yet serving \<open>GET /foo/\<close> is a redirect with status 301, not Not Found.  And no
  route matches \<open>/*\<close>, yet serving \<open>POST /*\<close> is answered with status 405, because
  \<open>allowed\<close> lists every registered method for the server-wide wildcard.
\<close>

theorem no_match_redirect_counterexample:
  "dom (trees (fields (routerWith ''GET'' ''/foo''))) = {''GET''}
   \<and> map fst (the (trees (fields (routerWith ''GET'' ''/foo'')) ''GET'')) = [''/foo'']
   \<and> fst (getValue static_ops (the (trees (fields (routerWith ''GET'' ''/foo'')) ''GET'')) ''/foo/'') = None
   \<and> fst (Handler static_ops (routerWith ''GET'' ''/foo'') [''GET''] (request ''GET'' ''/foo/''))
        = OutRedirectSlash
   \<and> fst (Handler static_ops (routerWith ''GET'' ''/foo'') [''GET''] (request ''GET'' ''/foo/''))
        \<noteq> OutNotFound
   \<and> statusCode (resultCtx (snd (Handler static_ops (routerWith ''GET'' ''/foo'') [''GET'']
        (request ''GET'' ''/foo/'')))) = 301
   \<and> fst (getValue static_ops (the (trees (fields (routerWith ''GET'' ''/foo'')) ''GET'')) ''/*'') = None
   \<and> fst (Handler static_ops (routerWith ''GET'' ''/foo'') [''GET''] (request ''POST'' ''/*''))
        = OutMethodNotAllowed
   \<and> statusCode (resultCtx (snd (Handler static_ops (routerWith ''GET'' ''/foo'') [''GET'']
        (request ''POST'' ''/*'')))) = 405"
proof -
  have t: "trees (fields (routerWith ''GET'' ''/foo'')) = [''GET'' \<mapsto> [(''/foo'', okHandler)]]"
    by (simp add: routerWith_foo New_def)
  have gv: "fst (getValue static_ops [(''/foo'', okHandler)] ''/foo/'') = None"
    by (simp add: static_ops_def static_getValue_def)
  have gw: "fst (getValue static_ops [(''/foo'', okHandler)] ''/*'') = None"
    by (simp add: static_ops_def static_getValue_def)
  have h: "Handler static_ops (routerWith ''GET'' ''/foo'') [''GET''] (request ''GET'' ''/foo/'')
             = (OutRedirectSlash, Returned (Redirect (request ''GET'' ''/foo/'') ''/foo'' 301))"
    by (simp add: slash_redirect_example)
  have al: "allowed static_ops (fields (routerWith ''GET'' ''/foo'')) [''GET''] ''/*'' ''POST''
              = ''GET, OPTIONS''"
    by (simp add: allowed_def addAllowed_def)
  have w: "Handler static_ops (routerWith ''GET'' ''/foo'') [''GET''] (request ''POST'' ''/*'')
             = (OutMethodNotAllowed,
                Returned ((setHeader (request ''POST'' ''/*'') ''Allow'' ''GET, OPTIONS'')
                  \<lparr>statusCode := 405, respContentType := defaultContentType,
                    respBody := ''Method Not Allowed''\<rparr>))"
    by (simp add: Handler_def Let_def Handler_body_def Handler_fallback_def routerWith_foo New_def
          request_def al [unfolded routerWith_foo New_def, simplified])
  show ?thesis by (simp add: t gv gw h w Redirect_def)
qed

theorem no_match_redirect_or_not_found_witness:
  "Handler_body static_ops (fields (routerWith ''GET'' ''/foo'')) [''GET''] (request ''POST'' ''/bar'')
     = (OutNotFound, Returned (ctxError (request ''POST'' ''/bar'') ''Not Found'' 404))
   \<and> Handler_body static_ops (fields (New :: static_node Router)) [] (request ''GET'' ''/*'')
     = (OutNotFound, Returned (ctxError (request ''GET'' ''/*'') ''Not Found'' 404))
   \<and> fst (Handler static_ops (routerWith ''GET'' ''/foo'') [''GET''] (request ''GET'' ''/foo/''))
     = OutRedirectSlash"
proof -
  let ?g = "routerWith ''GET'' ''/foo''"
  let ?c = "request ''POST'' ''/bar''"
  let ?d = "request ''GET'' ''/foo/''"
  have nm: "\<forall>m n. trees (fields ?g) m = Some n \<longrightarrow> fst (getValue static_ops n (reqPath ?c)) = None"
    by (simp add: routerWith_foo static_ops_def static_getValue_def toggleSlash_def request_def)
  have w: "(reqPath ?c \<noteq> ''*'' \<and> reqPath ?c \<noteq> ''/*'') \<or> [''GET''] = []"
    by (simp add: request_def)
  have nt: "trees (fields ?g) (reqMethod ?c) = None"
    by (simp add: routerWith_foo New_def request_def)
  have nf: "NotFound (fields ?g) = None"
    by (simp add: routerWith_foo New_def)
  have nm0: "\<forall>m n. trees (fields (New :: static_node Router)) m = Some n \<longrightarrow>
               fst (getValue static_ops n (reqPath (request ''GET'' ''/*''))) = None"
    by (simp add: New_def)
  have w0: "(reqPath (request ''GET'' ''/*'') \<noteq> ''*'' \<and> reqPath (request ''GET'' ''/*'') \<noteq> ''/*'')
             \<or> ([] :: string list) = []"
    by simp
  have nt0: "trees (fields (New :: static_node Router)) (reqMethod (request ''GET'' ''/*'')) = None"
    by (simp add: New_def)
  have nf0: "NotFound (fields (New :: static_node Router)) = None"
    by (simp add: New_def)
  have nmd: "\<forall>m n. trees (fields ?g) m = Some n \<longrightarrow> fst (getValue static_ops n (reqPath ?d)) = None"
    by (simp add: routerWith_foo static_ops_def static_getValue_def toggleSlash_def request_def)
  have wd: "(reqPath ?d \<noteq> ''*'' \<and> reqPath ?d \<noteq> ''/*'') \<or> [''GET''] = []"
    by (simp add: request_def)
  have sd: "slashRedirectApplies static_ops (fields ?g) ?d"
    by (simp add: slashRedirectApplies_def routerWith_foo New_def request_def static_ops_def
          static_getValue_def toggleSlash_def)
  from no_match_redirect_or_not_found [OF nm w] nt nf
  have a: "Handler_body static_ops (fields ?g) [''GET''] ?c
             = (OutNotFound, Returned (ctxError ?c ''Not Found'' 404))"
    by (simp add: slashRedirectApplies_def fixedRedirectApplies_def afterLookup_no_tree)
  from no_match_redirect_or_not_found [OF nm0 w0] nt0 nf0
  have b: "Handler_body static_ops (fields (New :: static_node Router)) [] (request ''GET'' ''/*'')
     = (OutNotFound, Returned (ctxError (request ''GET'' ''/*'') ''Not Found'' 404))"
    by (simp add: slashRedirectApplies_def fixedRedirectApplies_def afterLookup_no_tree)
  from no_match_redirect_or_not_found [OF nmd wd] sd
  have c: "fst (Handler static_ops ?g [''GET''] ?d) = OutRedirectSlash"
    by simp
  from a b c show ?thesis by simp
qed

section \<open>Allowed methods\<close>

lemma allowedServerWide_foldl:
  "allowedServerWide ks allow = foldl addAllowed allow (filter (\<lambda>m. m \<noteq> ''OPTIONS'') ks)"
  by (induction ks arbitrary: allow) simp_all

lemma allowedForPath_foldl:
  "allowedForPath ops ts path reqM ks allow =
     foldl addAllowed allow
       (filter (\<lambda>m. m \<noteq> reqM \<and> m \<noteq> ''OPTIONS'' \<and>
                     (case ts m of None \<Rightarrow> False | Some n \<Rightarrow> fst (getValue ops n path) \<noteq> None)) ks)"
  by (induction ks arbitrary: allow) (auto split: option.splits)

lemma foldl_addAllowed_nonempty:
  "allow \<noteq> [] \<Longrightarrow> foldl addAllowed allow ms = allow @ concat (map (\<lambda>m. '', '' @ m) ms)"
  by (induction ms arbitrary: allow) (simp_all add: addAllowed_def)

lemma commaJoin_Cons: "commaJoin (m # ms) = m @ concat (map (\<lambda>m. '', '' @ m) ms)"
  by (induction ms arbitrary: m) simp_all

lemma foldl_addAllowed_commaJoin:
  "foldl addAllowed [] ms = commaJoin (dropWhile (\<lambda>m. m = []) ms)"
proof (induction ms)
  case Nil
  show ?case by simp
next
  case (Cons m ms)
  show ?case
  proof (cases "m = []")
    case True
    with Cons show ?thesis by (simp add: addAllowed_def)
  next
    case False
    then have "foldl addAllowed [] (m # ms) = foldl addAllowed m ms"
      by (simp add: addAllowed_def)
    also from False have "\<dots> = m @ concat (map (\<lambda>m. '', '' @ m) ms)"
      by (rule foldl_addAllowed_nonempty)
    also have "\<dots> = commaJoin (m # ms)"
      by (simp only: commaJoin_Cons)
    finally show ?thesis using False by simp
  qed
qed

lemma commaJoin_snoc:
  "ms \<noteq> [] \<Longrightarrow> commaJoin (ms @ [x]) = commaJoin ms @ '', '' @ x"
  by (induction ms rule: commaJoin.induct) simp_all

lemma commaJoin_empty_iff:
  "ms = [] \<or> hd ms \<noteq> [] \<Longrightarrow> (commaJoin ms = []) = (ms = [])"
proof (cases ms)
  case Nil
  then show ?thesis by simp
next
  case (Cons m ms')
  assume "ms = [] \<or> hd ms \<noteq> []"
  with Cons have "m \<noteq> []" by simp
  with Cons show ?thesis by (simp add: commaJoin_Cons del: commaJoin.simps)
qed

lemma dropWhile_empty_hd:
  "dropWhile (\<lambda>m. m = []) ms = [] \<or> hd (dropWhile (\<lambda>m. m = []) ms) \<noteq> ([] :: string)"
  using hd_dropWhile [of "\<lambda>m. m = ([] :: string)" ms] by blast

lemma finish_allow:
  "(let allow = foldl addAllowed [] ms in if length allow > 0 then allow @ '', OPTIONS'' else allow)
     = (if dropWhile (\<lambda>m. m = []) ms = [] then []
        else commaJoin (dropWhile (\<lambda>m. m = []) ms @ [''OPTIONS'']))"
  using commaJoin_empty_iff [OF dropWhile_empty_hd [of ms]]
  by (auto simp add: Let_def foldl_addAllowed_commaJoin commaJoin_snoc)

lemma set_dropWhile_empty:
  "set (dropWhile (\<lambda>m. m = []) ms) \<subseteq> set ms"
  "set ms - {[]} \<subseteq> set (dropWhile (\<lambda>m. m = []) ms)"
proof -
  show "set (dropWhile (\<lambda>m. m = []) ms) \<subseteq> set ms"
    by (auto dest: set_dropWhileD)
  show "set ms - {[]} \<subseteq> set (dropWhile (\<lambda>m. m = []) ms)"
    by (induction ms) auto
qed

lemma listed_methods:
  assumes "distinct ks"
  shows "\<exists>ms. distinct ms
           \<and> set ms \<subseteq> {m \<in> set ks. P m}
           \<and> {m \<in> set ks. P m} - {[]} \<subseteq> set ms
           \<and> (let allow = foldl addAllowed [] (filter P ks)
              in if length allow > 0 then allow @ '', OPTIONS'' else allow)
               = (if ms = [] then [] else commaJoin (ms @ [''OPTIONS'']))"
proof -
  let ?ms = "dropWhile (\<lambda>m. m = []) (filter P ks)"
  have "distinct ?ms" using assms by (simp add: distinct_dropWhile)
  moreover have "set ?ms \<subseteq> {m \<in> set ks. P m}"
    using set_dropWhile_empty(1) [of "filter P ks"] by auto
  moreover have "{m \<in> set ks. P m} - {[]} \<subseteq> set ?ms"
    using set_dropWhile_empty(2) [of "filter P ks"] by auto
  moreover note finish_allow [of "filter P ks"]
  ultimately show ?thesis by blast
qed

text \<open>
  C5 (as amended).  Let \<open>ks\<close> be the keys of \<open>r.trees\<close> in the order the \<open>range\<close> statement
  yields them (each key once).  For a path other than the server-wide wildcard, which
  \<open>allowed\<close> recognises in its two spellings \<open>*\<close> and \<open>/*\<close>, the result is a comma-joined
  list of registered methods other than the request method and \<open>OPTIONS\<close> whose tree has
  a handler for the path: it holds no other method and it holds every such method with a
  non-empty name.  \<open>OPTIONS\<close> is appended at the end if and only if the list is not empty.
  For the wildcard the list holds registered methods other than \<open>OPTIONS\<close>, whatever
  their trees match, and every such method with a non-empty name.
\<close>

theorem allowed_lists_matching_methods:
  assumes order: "distinct ks" "set ks = dom (trees r)"
  shows "(path \<noteq> ''*'' \<and> path \<noteq> ''/*'' \<longrightarrow>
           (\<exists>ms. distinct ms
              \<and> set ms \<subseteq> {m \<in> dom (trees r). m \<noteq> reqM \<and> m \<noteq> ''OPTIONS'' \<and> matches ops r path m}
              \<and> {m \<in> dom (trees r). m \<noteq> reqM \<and> m \<noteq> ''OPTIONS'' \<and> matches ops r path m} - {[]}
                  \<subseteq> set ms
              \<and> allowed ops r ks path reqM
                  = (if ms = [] then [] else commaJoin (ms @ [''OPTIONS'']))))
       \<and> (path = ''*'' \<or> path = ''/*'' \<longrightarrow>
           (\<exists>ms. distinct ms
              \<and> set ms \<subseteq> {m \<in> dom (trees r). m \<noteq> ''OPTIONS''}
              \<and> {m \<in> dom (trees r). m \<noteq> ''OPTIONS''} - {[]} \<subseteq> set ms
              \<and> allowed ops r ks path reqM
                  = (if ms = [] then [] else commaJoin (ms @ [''OPTIONS'']))))"
proof (intro conjI impI)
  assume p: "path \<noteq> ''*'' \<and> path \<noteq> ''/*''"
  have a: "allowed ops r ks path reqM =
        (let allow = foldl addAllowed []
                       (filter (\<lambda>m. m \<noteq> reqM \<and> m \<noteq> ''OPTIONS'' \<and> matches ops r path m) ks)
         in if length allow > 0 then allow @ '', OPTIONS'' else allow)"
    using p by (simp add: allowed_def allowedForPath_foldl matches_def [abs_def])
  from listed_methods [OF order(1), of "\<lambda>m. m \<noteq> reqM \<and> m \<noteq> ''OPTIONS'' \<and> matches ops r path m"]
  show "\<exists>ms. distinct ms
              \<and> set ms \<subseteq> {m \<in> dom (trees r). m \<noteq> reqM \<and> m \<noteq> ''OPTIONS'' \<and> matches ops r path m}
              \<and> {m \<in> dom (trees r). m \<noteq> reqM \<and> m \<noteq> ''OPTIONS'' \<and> matches ops r path m} - {[]}
                  \<subseteq> set ms
              \<and> allowed ops r ks path reqM
                  = (if ms = [] then [] else commaJoin (ms @ [''OPTIONS'']))"
    unfolding a order(2) .
next
  assume p: "path = ''*'' \<or> path = ''/*''"
  have a: "allowed ops r ks path reqM =
        (let allow = foldl addAllowed [] (filter (\<lambda>m. m \<noteq> ''OPTIONS'') ks)
         in if length allow > 0 then allow @ '', OPTIONS'' else allow)"
    using p by (auto simp add: allowed_def allowedServerWide_foldl)
  from listed_methods [OF order(1), of "\<lambda>m. m \<noteq> ''OPTIONS''"]
  show "\<exists>ms. distinct ms
              \<and> set ms \<subseteq> {m \<in> dom (trees r). m \<noteq> ''OPTIONS''}
              \<and> {m \<in> dom (trees r). m \<noteq> ''OPTIONS''} - {[]} \<subseteq> set ms
              \<and> allowed ops r ks path reqM
                  = (if ms = [] then [] else commaJoin (ms @ [''OPTIONS'']))"
    unfolding a order(2) .
qed

lemma twoMethods_eq:
  "twoMethods =
     Router ((fields New)\<lparr>trees := [''GET'' \<mapsto> [(''/x'', okHandler)], ''PUT'' \<mapsto> [(''/x'', okHandler)]],
                          registeredPaths := [''GET'' \<mapsto> [''/x''], ''PUT'' \<mapsto> [''/x'']]\<rparr>) None"
  by (simp add: twoMethods_def New_def static_ops_def paths_of_def static_getOptionalPaths_def
      isOptional_def static_addRoute_def Let_def)

lemma twoMethods_allowed:
  "allowed static_ops (fields twoMethods) [''PUT'', ''GET''] ''/x'' ''POST'' = ''PUT, GET, OPTIONS''"
  "allowed static_ops (fields twoMethods) [''PUT'', ''GET''] ''/x'' ''GET'' = ''PUT, OPTIONS''"
  "allowed static_ops (fields twoMethods) [''PUT'', ''GET''] ''/y'' ''POST'' = []"
  "allowed static_ops (fields twoMethods) [''PUT'', ''GET''] ''*'' ''GET'' = ''PUT, GET, OPTIONS''"
  by (simp_all add: allowed_def twoMethods_eq static_ops_def static_getValue_def addAllowed_def)

theorem allowed_lists_matching_methods_witness:
  "(\<exists>ms. distinct ms
      \<and> set ms \<subseteq> {m \<in> {''GET'', ''PUT''}. m \<noteq> ''GET'' \<and> m \<noteq> ''OPTIONS''
                     \<and> matches static_ops (fields twoMethods) ''/x'' m}
      \<and> {m \<in> {''GET'', ''PUT''}. m \<noteq> ''GET'' \<and> m \<noteq> ''OPTIONS''
                     \<and> matches static_ops (fields twoMethods) ''/x'' m} - {[]} \<subseteq> set ms
      \<and> ''PUT, OPTIONS'' = (if ms = [] then [] else commaJoin (ms @ [''OPTIONS''])))
   \<and> (\<exists>ms. distinct ms
      \<and> set ms \<subseteq> {m \<in> {''GET'', ''PUT''}. m \<noteq> ''OPTIONS''}
      \<and> {m \<in> {''GET'', ''PUT''}. m \<noteq> ''OPTIONS''} - {[]} \<subseteq> set ms
      \<and> ''PUT, GET, OPTIONS'' = (if ms = [] then [] else commaJoin (ms @ [''OPTIONS''])))"
proof -
  have d: "distinct [''PUT'', ''GET'']" by simp
  have s: "set [''PUT'', ''GET''] = dom (trees (fields twoMethods))"
    by (auto simp add: twoMethods_eq)
  have dm: "dom (trees (fields twoMethods)) = {''GET'', ''PUT''}"
    by (auto simp add: twoMethods_eq)
  have p1: "''/x'' \<noteq> ''*'' \<and> ''/x'' \<noteq> ''/*''" by simp
  have p2: "''*'' = ''*'' \<or> ''*'' = ''/*''" by simp
  from allowed_lists_matching_methods [OF d s, of "''/x''" "''GET''" static_ops] p1
  have a: "\<exists>ms. distinct ms
      \<and> set ms \<subseteq> {m \<in> {''GET'', ''PUT''}. m \<noteq> ''GET'' \<and> m \<noteq> ''OPTIONS''
                     \<and> matches static_ops (fields twoMethods) ''/x'' m}
      \<and> {m \<in> {''GET'', ''PUT''}. m \<noteq> ''GET'' \<and> m \<noteq> ''OPTIONS''
                     \<and> matches static_ops (fields twoMethods) ''/x'' m} - {[]} \<subseteq> set ms
      \<and> ''PUT, OPTIONS'' = (if ms = [] then [] else commaJoin (ms @ [''OPTIONS'']))"
    unfolding dm twoMethods_allowed by blast
  from allowed_lists_matching_methods [OF d s, of "''*''" "''GET''" static_ops] p2
  have b: "\<exists>ms. distinct ms
      \<and> set ms \<subseteq> {m \<in> {''GET'', ''PUT''}. m \<noteq> ''OPTIONS''}
      \<and> {m \<in> {''GET'', ''PUT''}. m \<noteq> ''OPTIONS''} - {[]} \<subseteq> set ms
      \<and> ''PUT, GET, OPTIONS'' = (if ms = [] then [] else commaJoin (ms @ [''OPTIONS'']))"
    unfolding dm twoMethods_allowed by blast
  from a b show ?thesis by (rule conjI)
qed

lemma emptyAndGet_eq:
  "emptyAndGet =
     Router ((fields New)\<lparr>trees := [[] \<mapsto> [(''/x'', okHandler)], ''GET'' \<mapsto> [(''/x'', okHandler)]],
                          registeredPaths := [[] \<mapsto> [''/x''], ''GET'' \<mapsto> [''/x'']]\<rparr>) None"
  by (simp add: emptyAndGet_def New_def static_ops_def paths_of_def static_getOptionalPaths_def
      isOptional_def static_addRoute_def Let_def)

text \<open>
  C5 as stated fails.  The path \<open>/*\<close> is not the wildcard target \<open>*\<close>, but \<open>allowed\<close>
  treats it as server-wide: with only \<open>GET /foo\<close> registered, \<open>allowed("/*", "GET")\<close>
  lists \<open>GET\<close>, the request method, whose tree does not match \<open>/*\<close>.  And a method
  registered under the empty name is dropped from the list when it comes first: with
  \<open>/x\<close> registered for the methods \<open>""\<close> and \<open>GET\<close>, both trees match \<open>/x\<close> and the result
  is \<open>GET, OPTIONS\<close>.
\<close>

theorem allowed_wildcard_spelling_counterexample:
  "allowed static_ops (fields (routerWith ''GET'' ''/foo'')) [''GET''] ''/*'' ''GET'' = ''GET, OPTIONS''
   \<and> \<not> matches static_ops (fields (routerWith ''GET'' ''/foo'')) ''/*'' ''GET''
   \<and> ''/*'' \<noteq> ''*''
   \<and> dom (trees (fields emptyAndGet)) = {[], ''GET''}
   \<and> matches static_ops (fields emptyAndGet) ''/x'' []
   \<and> matches static_ops (fields emptyAndGet) ''/x'' ''GET''
   \<and> allowed static_ops (fields emptyAndGet) [[], ''GET''] ''/x'' ''POST'' = ''GET, OPTIONS''
   \<and> commaJoin [[], ''GET'', ''OPTIONS''] = '', GET, OPTIONS''"
proof -
  have a: "allowed static_ops (fields (routerWith ''GET'' ''/foo'')) [''GET''] ''/*'' ''GET''
             = ''GET, OPTIONS''"
    by (simp add: allowed_def addAllowed_def)
  have b: "\<not> matches static_ops (fields (routerWith ''GET'' ''/foo'')) ''/*'' ''GET''"
    by (simp add: matches_def routerWith_foo static_ops_def static_getValue_def)
  have c: "dom (trees (fields emptyAndGet)) = {[], ''GET''}"
    by (auto simp add: emptyAndGet_eq)
  have d: "matches static_ops (fields emptyAndGet) ''/x'' []"
    "matches static_ops (fields emptyAndGet) ''/x'' ''GET''"
    by (simp_all add: matches_def emptyAndGet_eq static_ops_def static_getValue_def)
  have e: "allowed static_ops (fields emptyAndGet) [[], ''GET''] ''/x'' ''POST'' = ''GET, OPTIONS''"
    by (simp add: allowed_def emptyAndGet_eq static_ops_def static_getValue_def addAllowed_def)
  show ?thesis by (simp add: a b c d e)
qed

section \<open>Registration on the root and through groups\<close>

lemma Handle_root:
  assumes "startsWithSlash path"
  shows "Handle ops (Router r None) m path h =
           (case fst (addRoutes ops (treeFor ops r m) (expansions ops (ownPrefix r @ path)) h) of
              None \<Rightarrow> Ok (Router (rootAfter ops r m (ownPrefix r @ path) h) None)
            | Some e \<Rightarrow> Panic e (Router (rootAfter ops r m (ownPrefix r @ path) h) None))"
proof -
  from assms obtain cs where p: "path = CHR ''/'' # cs"
    by (cases path) (auto simp add: startsWithSlash_def)
  have tf: "\<And>q. (case trees (r\<lparr>registeredPaths := q\<rparr>) m of None \<Rightarrow> newNode ops | Some n \<Rightarrow> n)
              = treeFor ops r m"
    by (simp add: treeFor_def)
  have ex: "\<And>q. (if length (getOptionalPaths ops q) = 0 then [q] else getOptionalPaths ops q)
              = expansions ops q"
    by (simp add: expansions_def Let_def)
  show ?thesis
    unfolding p Handle.simps list.case Let_def option.case tf ex
    by (simp add: rootAfter_def recordPath_def ownPrefix_def split: option.splits)
qed

lemma Handle_group:
  assumes "startsWithSlash path"
  shows "Handle ops (Router r (Some p)) m path h =
           (case Handle ops p m (ownPrefix r @ path) h of
              Ok p' \<Rightarrow> Ok (Router (recordPath r m (ownPrefix r @ path)) (Some p'))
            | Panic e p' \<Rightarrow> Panic e (Router (recordPath r m (ownPrefix r @ path)) (Some p')))"
proof -
  from assms obtain cs where "path = CHR ''/'' # cs"
    by (cases path) (auto simp add: startsWithSlash_def)
  then show ?thesis
    by (simp add: Let_def recordPath_def ownPrefix_def split: registration.splits)
qed

declare Handle.simps [simp del]

lemma Handle_rejected:
  "\<not> startsWithSlash path \<Longrightarrow> state_of (Handle ops g m path h) = g \<and> \<not> is_Ok (Handle ops g m path h)"
  by (cases path) (simp_all add: Handle_empty_path Handle_bad_first_char startsWithSlash_def)

lemma state_of_Handle_group:
  "startsWithSlash path \<Longrightarrow>
   state_of (Handle ops (Router r (Some p)) m path h) =
     Router (recordPath r m (ownPrefix r @ path)) (Some (state_of (Handle ops p m (ownPrefix r @ path) h)))"
  by (simp add: Handle_group split: registration.splits)

lemma is_Ok_Handle_group:
  "startsWithSlash path \<Longrightarrow>
   is_Ok (Handle ops (Router r (Some p)) m path h) = is_Ok (Handle ops p m (ownPrefix r @ path) h)"
  by (simp add: Handle_group split: registration.splits)

lemma state_of_Handle_root:
  "startsWithSlash path \<Longrightarrow>
   state_of (Handle ops (Router r None) m path h) =
     Router (rootAfter ops r m (ownPrefix r @ path) h) None"
  by (simp add: Handle_root split: option.splits)

lemma is_Ok_Handle_root:
  "startsWithSlash path \<Longrightarrow>
   is_Ok (Handle ops (Router r None) m path h) =
     (fst (addRoutes ops (treeFor ops r m) (expansions ops (ownPrefix r @ path)) h) = None)"
  by (simp add: Handle_root split: option.splits)

lemma trees_recordPath [simp]: "trees (recordPath r m path) = trees r"
  by (simp add: recordPath_def)

lemma paths_of_recordPath:
  "paths_of (recordPath r m path) m' = (if m' = m then paths_of r m @ [path] else paths_of r m')"
  by (simp add: recordPath_def paths_of_def)

lemma group_trees_unchanged:
  "map trees (groups_of (state_of (Handle ops g m path h))) = map trees (groups_of g)"
proof (induction g arbitrary: path rule: groups_of.induct)
  case (1 r)
  show ?case
    by (cases "startsWithSlash path") (simp_all add: state_of_Handle_root Handle_rejected)
next
  case (2 r p)
  show ?case
    by (cases "startsWithSlash path") (simp_all add: state_of_Handle_group Handle_rejected 2)
qed

lemma root_after_Handle:
  "reachesRoot g path \<Longrightarrow>
   root_of (state_of (Handle ops g m path h)) =
     rootAfter ops (root_of g) m (chainPrefix g @ path) h"
proof (induction g arbitrary: path rule: groups_of.induct)
  case (1 r)
  then show ?case by (simp add: state_of_Handle_root)
next
  case (2 r p)
  then show ?case by (simp add: state_of_Handle_group)
qed

lemma is_Ok_after_Handle:
  "reachesRoot g path \<Longrightarrow>
   is_Ok (Handle ops g m path h) =
     (fst (addRoutes ops (treeFor ops (root_of g) m) (expansions ops (chainPrefix g @ path)) h) = None)"
proof (induction g arbitrary: path rule: groups_of.induct)
  case (1 r)
  then show ?case by (simp add: is_Ok_Handle_root)
next
  case (2 r p)
  then show ?case by (simp add: is_Ok_Handle_group)
qed

lemma root_untouched:
  "\<not> reachesRoot g path \<Longrightarrow>
   root_of (state_of (Handle ops g m path h)) = root_of g \<and> \<not> is_Ok (Handle ops g m path h)"
proof (induction g arbitrary: path rule: groups_of.induct)
  case (1 r)
  then show ?case by (simp add: Handle_rejected)
next
  case (2 r p)
  show ?case
  proof (cases "startsWithSlash path")
    case True
    with 2 show ?thesis by (simp add: state_of_Handle_group is_Ok_Handle_group)
  next
    case False
    then show ?thesis by (simp add: Handle_rejected)
  qed
qed

lemma paths_of_rootAfter:
  "paths_of (rootAfter ops r m path h) m' = (if m' = m then paths_of r m @ [path] else paths_of r m')"
  by (simp add: rootAfter_def recordPath_def paths_of_def)

lemma trees_rootAfter:
  "trees (rootAfter ops r m path h) =
     (trees r)(m \<mapsto> snd (addRoutes ops (treeFor ops r m) (expansions ops path) h))"
  by (simp add: rootAfter_def)

text \<open>
  C2 (as amended).  A call \<open>Handle(method, path, handler)\<close> on a root router with a path
  that starts with \<open>/\<close> appends exactly one entry to \<open>registeredPaths[method]\<close>: the
  pattern as given (after prefixing), whatever optional segments it has.  The expansions
  of the pattern go to the trie only: the method's tree is the result of one \<open>addRoute\<close>
  per expansion, or of a single \<open>addRoute\<close> of the pattern when there is none.
\<close>

theorem root_registration_records_pattern_once:
  assumes "startsWithSlash path"
  shows "paths_of (fields (state_of (Handle ops (Router r None) m path h))) m
           = paths_of r m @ [ownPrefix r @ path]
       \<and> length (paths_of (fields (state_of (Handle ops (Router r None) m path h))) m)
           = Suc (length (paths_of r m))
       \<and> trees (fields (state_of (Handle ops (Router r None) m path h))) m
           = Some (snd (addRoutes ops (treeFor ops r m) (expansions ops (ownPrefix r @ path)) h))"
  by (simp add: state_of_Handle_root [OF assms] paths_of_rootAfter trees_rootAfter)

lemma static_expand_example: "getOptionalPaths static_ops ''/a/:b?'' = [''/a/:b'', ''/a'']"
  by (simp add: static_ops_def static_getOptionalPaths_def isOptional_def joinSlash_def)

lemma static_expand_plain: "getOptionalPaths static_ops ''/health'' = [''/health'']"
  by (simp add: static_ops_def static_getOptionalPaths_def isOptional_def joinSlash_def)

lemma New_fields:
  "beginPath (fields New) = ''/''" "trees (fields New) = Map.empty"
  "registeredPaths (fields New) = Map.empty" "parent New = None"
  by (simp_all add: New_def)

lemma New_root: "(New :: 'n Router) = Router (fields New) None"
  by (simp add: New_def)

text \<open>
  C2 as stated fails: the pattern \<open>/a/:b?\<close> has one optional segment and two expansions,
  both inserted into the trie, but \<open>registeredPaths["GET"]\<close> gains the single entry
  \<open>/a/:b?\<close>.
\<close>

theorem optional_pattern_recorded_once_counterexample:
  "getOptionalPaths static_ops ''/a/:b?'' = [''/a/:b'', ''/a'']
   \<and> paths_of (fields (New :: static_node Router)) ''GET'' = []
   \<and> is_Ok (Handle static_ops New ''GET'' ''/a/:b?'' okHandler)
   \<and> paths_of (fields (state_of (Handle static_ops New ''GET'' ''/a/:b?'' okHandler))) ''GET''
        = [''/a/:b?'']
   \<and> paths_of (fields (state_of (Handle static_ops New ''GET'' ''/a/:b?'' okHandler))) ''GET''
        \<noteq> [''/a/:b'', ''/a'']
   \<and> map fst (the (trees (fields (state_of (Handle static_ops New ''GET'' ''/a/:b?'' okHandler)))
        ''GET'')) = [''/a/:b'', ''/a'']"
proof -
  have s: "startsWithSlash ''/a/:b?''" by (simp add: startsWithSlash_def)
  have t: "treeFor static_ops (fields (New :: static_node Router)) ''GET'' = []"
    by (simp add: treeFor_def New_fields static_ops_def)
  have e: "expansions static_ops (ownPrefix (fields (New :: static_node Router)) @ ''/a/:b?'')
             = [''/a/:b'', ''/a'']"
    by (simp add: expansions_def ownPrefix_def New_fields static_expand_example)
  have a: "addRoutes static_ops [] [''/a/:b'', ''/a''] okHandler
             = (None, [(''/a/:b'', okHandler), (''/a'', okHandler)])"
    by (simp add: static_ops_def static_addRoute_def)
  have st: "state_of (Handle static_ops New ''GET'' ''/a/:b?'' okHandler)
              = Router (rootAfter static_ops (fields New) ''GET'' ''/a/:b?'' okHandler) None"
    using state_of_Handle_root [OF s, of static_ops "fields New" "''GET''" okHandler]
    by (simp add: New_root [symmetric] ownPrefix_def New_fields)
  have ok: "is_Ok (Handle static_ops New ''GET'' ''/a/:b?'' okHandler)"
    using is_Ok_Handle_root [OF s, of static_ops "fields New" "''GET''" okHandler]
    by (simp add: New_root [symmetric] t e a del: addRoutes.simps)
  have e': "expansions static_ops ''/a/:b?'' = [''/a/:b'', ''/a'']"
    using e by (simp add: ownPrefix_def New_fields)
  have p: "paths_of (fields (New :: static_node Router)) ''GET'' = []"
    by (simp add: paths_of_def New_fields)
  show ?thesis
    by (simp add: static_expand_example ok st paths_of_rootAfter trees_rootAfter t e' a p
          del: addRoutes.simps)
qed

theorem root_registration_records_pattern_once_witness:
  "paths_of (fields (state_of (Handle static_ops New ''GET'' ''/health'' okHandler))) ''GET''
     = [''/health'']
   \<and> map fst (the (trees (fields (state_of (Handle static_ops New ''GET'' ''/health'' okHandler)))
        ''GET'')) = [''/health'']"
proof -
  have s: "startsWithSlash ''/health''" by (simp add: startsWithSlash_def)
  have t: "treeFor static_ops (fields (New :: static_node Router)) ''GET'' = []"
    by (simp add: treeFor_def New_fields static_ops_def)
  have e: "expansions static_ops ''/health'' = [''/health'']"
    by (simp add: expansions_def static_expand_plain)
  have a: "addRoutes static_ops [] [''/health''] okHandler = (None, [(''/health'', okHandler)])"
    by (simp add: static_ops_def static_addRoute_def)
  have p: "paths_of (fields (New :: static_node Router)) ''GET'' = []"
    by (simp add: paths_of_def New_fields)
  have o: "ownPrefix (fields (New :: static_node Router)) = []"
    by (simp add: ownPrefix_def New_fields)
  from root_registration_records_pattern_once [OF s, of static_ops "fields New" "''GET''" okHandler]
  show ?thesis by (simp add: New_root [symmetric] t e a p o del: addRoutes.simps)
qed

text \<open>
  C6 (as amended).  \<open>Handle\<close> on a grouped router never changes the tries of the grouped
  routers of its chain.  When each call along the chain passes the guard on \<open>path[0]\<close>, the
  registration reaches the root: the root records the path with the prefixes of the chain
  in front, where a \<open>beginPath\<close> that is exactly \<open>/\<close> adds nothing, and only the root's
  tree for the method receives the insertions.  Otherwise the call panics and the root is
  as before.
\<close>

theorem group_registration_reaches_root:
  "map trees (groups_of (state_of (Handle ops g m path h))) = map trees (groups_of g)
   \<and> (reachesRoot g path \<longrightarrow>
        paths_of (root_of (state_of (Handle ops g m path h))) m
          = paths_of (root_of g) m @ [chainPrefix g @ path]
        \<and> trees (root_of (state_of (Handle ops g m path h)))
          = (trees (root_of g))(m \<mapsto>
               snd (addRoutes ops (treeFor ops (root_of g) m)
                      (expansions ops (chainPrefix g @ path)) h))
        \<and> is_Ok (Handle ops g m path h)
          = (fst (addRoutes ops (treeFor ops (root_of g) m)
                    (expansions ops (chainPrefix g @ path)) h) = None))
   \<and> (\<not> reachesRoot g path \<longrightarrow>
        root_of (state_of (Handle ops g m path h)) = root_of g
        \<and> \<not> is_Ok (Handle ops g m path h))"
  using group_trees_unchanged [of ops g m path h] root_after_Handle [of g path ops m h]
    is_Ok_after_Handle [of g path ops m h] root_untouched [of g path ops m h]
  by (simp add: paths_of_rootAfter trees_rootAfter)

lemma Group_unfold: "Group g p = Router ((fields New)\<lparr>beginPath := p\<rparr>) (Some g)"
  by (simp add: Group_def)

text \<open>
  C6 as stated fails for a group created with \<open>Group("/")\<close>: its \<open>beginPath\<close> is not
  concatenated, and \<open>/x\<close> is registered at the root, not \<open>//x\<close>.
\<close>

theorem group_slash_prefix_counterexample:
  "beginPath (fields slashGroup) = ''/''
   \<and> is_Ok (Handle static_ops slashGroup ''GET'' ''/x'' okHandler)
   \<and> paths_of (root_of (state_of (Handle static_ops slashGroup ''GET'' ''/x'' okHandler))) ''GET''
        = [''/x'']
   \<and> beginPath (fields slashGroup) @ ''/x'' = ''//x''
   \<and> map fst (the (trees (root_of (state_of (Handle static_ops slashGroup ''GET'' ''/x'' okHandler)))
        ''GET'')) = [''/x'']"
proof -
  have g: "slashGroup = Router ((fields New)\<lparr>beginPath := ''/''\<rparr>) (Some (Router (fields New) None))"
    by (simp add: slashGroup_def Group_unfold New_root [symmetric])
  have r: "reachesRoot slashGroup ''/x''"
    by (simp add: g startsWithSlash_def ownPrefix_def)
  have c: "chainPrefix slashGroup = []"
    by (simp add: g ownPrefix_def New_fields)
  have ro: "root_of slashGroup = fields New"
    by (simp add: g)
  have t: "treeFor static_ops (fields (New :: static_node Router)) ''GET'' = []"
    by (simp add: treeFor_def New_fields static_ops_def)
  have e: "expansions static_ops ''/x'' = [''/x'']"
    by (simp add: expansions_def static_ops_def static_getOptionalPaths_def isOptional_def)
  have a: "addRoutes static_ops [] [''/x''] okHandler = (None, [(''/x'', okHandler)])"
    by (simp add: static_ops_def static_addRoute_def)
  have p: "paths_of (fields (New :: static_node Router)) ''GET'' = []"
    by (simp add: paths_of_def New_fields)
  have b: "beginPath (fields slashGroup) = ''/''"
    by (simp add: g)
  show ?thesis
    by (simp add: b root_after_Handle [OF r] is_Ok_after_Handle [OF r] c ro t e a p
          paths_of_rootAfter trees_rootAfter del: addRoutes.simps)
qed

theorem group_registration_reaches_root_witness:
  "chainPrefix apiV1 = ''/api/v1''
   \<and> paths_of (root_of (state_of (Handle static_ops apiV1 ''GET'' ''/users'' okHandler))) ''GET''
        = [''/api/v1/users'']
   \<and> map fst (the (trees (root_of (state_of (Handle static_ops apiV1 ''GET'' ''/users'' okHandler)))
        ''GET'')) = [''/api/v1/users'']
   \<and> map trees (groups_of (state_of (Handle static_ops apiV1 ''GET'' ''/users'' okHandler)))
        = [Map.empty, Map.empty]
   \<and> root_of (state_of (Handle static_ops apiV1 ''GET'' ''users'' okHandler)) = fields New"
proof -
  have g: "apiV1 = Router ((fields New)\<lparr>beginPath := ''/v1''\<rparr>)
             (Some (Router ((fields New)\<lparr>beginPath := ''/api''\<rparr>) (Some (Router (fields New) None))))"
    by (simp add: apiV1_def Group_unfold New_root [symmetric])
  have r: "reachesRoot apiV1 ''/users''"
    by (simp add: g startsWithSlash_def ownPrefix_def)
  have nr: "\<not> reachesRoot apiV1 ''users''"
    by (simp add: g startsWithSlash_def)
  have c: "chainPrefix apiV1 = ''/api/v1''"
    by (simp add: g ownPrefix_def New_fields)
  have ro: "root_of apiV1 = fields New"
    by (simp add: g)
  have gr: "map trees (groups_of apiV1) = [Map.empty, Map.empty]"
    by (simp add: g New_fields)
  have t: "treeFor static_ops (fields (New :: static_node Router)) ''GET'' = []"
    by (simp add: treeFor_def New_fields static_ops_def)
  have e: "expansions static_ops ''/api/v1/users'' = [''/api/v1/users'']"
    by (simp add: expansions_def static_ops_def static_getOptionalPaths_def isOptional_def)
  have a: "addRoutes static_ops [] [''/api/v1/users''] okHandler
             = (None, [(''/api/v1/users'', okHandler)])"
    by (simp add: static_ops_def static_addRoute_def)
  have p: "paths_of (fields (New :: static_node Router)) ''GET'' = []"
    by (simp add: paths_of_def New_fields)
  from group_registration_reaches_root [of static_ops apiV1 "''GET''" "''/users''" okHandler]
       group_registration_reaches_root [of static_ops apiV1 "''GET''" "''users''" okHandler]
       r nr
  show ?thesis by (simp add: c ro gr t e a p del: addRoutes.simps)
qed

end
